theory Spec2Isabelle
  imports Main "HOL-Library.Word"
begin

unbundle bit_operations_syntax

section \<open>gemlite/core.py: data model\<close>

text \<open>
  The embedding follows \<^verbatim>\<open>src/gemlite/core.py\<close>. Python integers are \<open>int\<close>
  (\<open>div\<close> and \<open>mod\<close> on \<open>int\<close> round as Python's \<open>//\<close> and \<open>%\<close> do), tensor
  dimensions are \<open>nat\<close>, \<open>torch.uint8\<close> values are \<open>8 word\<close> and \<open>torch.int32\<close> values
  are \<open>32 word\<close>. Every \<open>raise\<close> of the source, and every exception of Python or torch
  that the modelled statements can throw, is a value of \<open>error\<close>.
\<close>

datatype DType = FP16 | BF16 | FP32 | INT8 | INT32 | FP16D8

datatype error =
    KeyError int
  | NotImplementedError string
  | TypeError
  | ZeroDivisionError
  | RuntimeError
  | ValueError
  | IndexError
  | AssertionError
  | AttributeError string
  | BenchmarkFailure

text \<open>The two messages of \<open>GemLiteLinearTriton.__init__\<close>, under the spec's names.\<close>

definition UnsupportedBitWidth :: error where
  "UnsupportedBitWidth = NotImplementedError ''Only 2,4,8 W_nbits are supported.''"

definition InvalidShape :: error where
  "InvalidShape = NotImplementedError ''Invalid input shapes''"

text \<open>
  A contiguous 2D tensor: its shape and its cells in row-major order. A well-formed
  matrix has \<open>nrows * ncols\<close> cells.
\<close>

record 'a matrix =
  nrows :: nat
  ncols :: nat
  cells :: "'a list"

definition wf_matrix :: "'a matrix \<Rightarrow> bool" where
  "wf_matrix m \<longleftrightarrow> length (cells m) = nrows m * ncols m"

definition cell :: "'a matrix \<Rightarrow> nat \<Rightarrow> nat \<Rightarrow> 'a" where
  "cell m r c = cells m ! (r * ncols m + c)"

text \<open>A scale or zero-point argument: a tensor or a Python scalar.\<close>

datatype 'f meta = Tensor "'f matrix" | Scalar 'f

text \<open>
  What the process does that a caller can observe besides the returned value:
  buffers registered by a constructor, latency measurements and kernel launches.
\<close>

datatype cuda_kernel =
    gemv_A16fW8iO16f | gemv_A16fW4iO16f | gemv_A16fW2iO16f
  | gemv_A8iW8iO32i | gemv_A8iW4iO32i | gemv_A8iW2iO32i

datatype triton_kernel = gemm_A16fWnO16f_int32packing | gemv_A16fWnO16f_int32packing

datatype event =
    Alloc string nat nat
  | Bench triton_kernel
  | Invoke triton_kernel nat nat

section \<open>CUDA backend\<close>

definition GEMLITE_GEMV_FP16_INPUT_FP16_OUTPUT :: "int \<rightharpoonup> cuda_kernel" where
  "GEMLITE_GEMV_FP16_INPUT_FP16_OUTPUT =
     [8 \<mapsto> gemv_A16fW8iO16f, 4 \<mapsto> gemv_A16fW4iO16f, 2 \<mapsto> gemv_A16fW2iO16f]"

definition GEMLITE_GEMV_INT8_INPUT_INT32_OUTPUT :: "int \<rightharpoonup> cuda_kernel" where
  "GEMLITE_GEMV_INT8_INPUT_INT32_OUTPUT =
     [8 \<mapsto> gemv_A8iW8iO32i, 4 \<mapsto> gemv_A8iW4iO32i, 2 \<mapsto> gemv_A8iW2iO32i]"

text \<open>
  An instance of \<open>GemLiteLinearCUDA\<close>. An attribute that \<open>__init__\<close> does not assign is
  an \<open>option\<close>: \<open>None\<close> is the attribute missing, and reading it raises
  \<open>AttributeError\<close>. \<open>forward_raw\<close> records which of the two lambdas was chosen
  (\<open>True\<close>: the kernel is called with the scales).
\<close>

record 'f cuda_linear =
  in_features :: int
  out_features :: int
  orig_shape :: "int \<times> int"
  W_nbits :: int
  group_size :: int
  input_dtype :: DType
  output_dtype :: DType
  signature :: "int \<times> int \<times> int \<times> int option"
  kernel_fct :: "cuda_kernel option"
  zero_is_tensor :: "bool option"
  has_scales :: "bool option"
  forward_raw :: "bool option"
  W_q :: "32 word matrix option"
  W_q_packed :: "32 word matrix option"
  scales :: "'f meta option option"
  zeros :: "'f meta option"
  bias :: "'f list option option"

definition threads_per_group :: nat where
  "threads_per_group = 32 div 1"

text \<open>
  \<open>GemLiteLinearCUDA.__init__\<close>. The argument \<open>group_size\<close> may be \<open>None\<close>; the two
  tests of the source use the argument, not \<open>self.group_size\<close>: \<open>%\<close> on \<open>None\<close> is a
  \<open>TypeError\<close>, \<open>%\<close> by zero a \<open>ZeroDivisionError\<close>, and \<open>None == n\<close> is false.
\<close>

definition cuda_init_fields ::
  "int \<Rightarrow> int option \<Rightarrow> int \<Rightarrow> int \<Rightarrow> DType \<Rightarrow> DType \<Rightarrow> 'f cuda_linear" where
  "cuda_init_fields nbits gs fin fout idt odt =
     \<lparr> in_features = fin, out_features = fout, orig_shape = (fout, fin),
       W_nbits = nbits, group_size = (case gs of None \<Rightarrow> fin | Some g \<Rightarrow> g),
       input_dtype = idt, output_dtype = odt, signature = (fin, fout, nbits, gs),
       kernel_fct = None, zero_is_tensor = None, has_scales = None, forward_raw = None,
       W_q = None, W_q_packed = None, scales = None, zeros = None, bias = None \<rparr>"

definition cuda_init_fp16 :: "int option \<Rightarrow> 'f cuda_linear \<Rightarrow> error + 'f cuda_linear" where
  "cuda_init_fp16 gs s =
     (if input_dtype s = FP16 \<and> output_dtype s = FP16 then
        (case GEMLITE_GEMV_FP16_INPUT_FP16_OUTPUT (W_nbits s) of
           None \<Rightarrow> Inl (KeyError (W_nbits s))
         | Some k \<Rightarrow>
            (case gs of
               None \<Rightarrow> Inl TypeError
             | Some g \<Rightarrow>
                if g = 0 then Inl ZeroDivisionError
                else if (in_features s * out_features s) mod g = 0
                then Inr (s\<lparr>kernel_fct := Some k, zero_is_tensor := Some True,
                            has_scales := Some True, forward_raw := Some True\<rparr>)
                else Inr (s\<lparr>kernel_fct := Some k\<rparr>)))
      else Inr s)"

definition cuda_init_int8 :: "int option \<Rightarrow> 'f cuda_linear \<Rightarrow> error + 'f cuda_linear" where
  "cuda_init_int8 gs s =
     (if input_dtype s = INT8 \<and> output_dtype s = INT32 then
        (case GEMLITE_GEMV_INT8_INPUT_INT32_OUTPUT (W_nbits s) of
           None \<Rightarrow> Inl (KeyError (W_nbits s))
         | Some k \<Rightarrow>
            if gs = Some (in_features s * out_features s)
            then Inr (s\<lparr>kernel_fct := Some k, zero_is_tensor := Some False,
                        has_scales := Some False, forward_raw := Some False\<rparr>)
            else Inr (s\<lparr>kernel_fct := Some k\<rparr>))
      else Inr s)"

definition GemLiteLinearCUDA_init ::
  "int \<Rightarrow> int option \<Rightarrow> int \<Rightarrow> int \<Rightarrow> DType \<Rightarrow> DType \<Rightarrow> error + 'f cuda_linear" where
  "GemLiteLinearCUDA_init nbits gs fin fout idt odt =
     (case cuda_init_fp16 gs (cuda_init_fields nbits gs fin fout idt odt) of
        Inl e \<Rightarrow> Inl e
      | Inr s1 \<Rightarrow>
         (case cuda_init_int8 gs s1 of
            Inl e \<Rightarrow> Inl e
          | Inr s2 \<Rightarrow>
             if forward_raw s2 = None
             then Inl (NotImplementedError ''Unsupport configuration: '')
             else Inr s2))"

section \<open>Triton backend: construction\<close>

datatype torch_dtype = float16 | bfloat16

datatype tl_dtype = tl_float16 | tl_float32

text \<open>
  \<open>W_q\<close>, \<open>scales\<close> and \<open>zeros\<close> are registered on the meta device by \<open>__init__\<close>
  (a shape without storage) and replaced by real tensors in \<open>pack\<close>.
\<close>

datatype 'a buffer = OnMeta nat nat | OnDevice "'a matrix"

record 'f triton_linear =
  in_features :: int
  out_features :: int
  orig_shape :: "int \<times> int"
  W_nbits :: int
  group_size :: int
  unpack_mask :: int
  elements_per_sample :: int
  signature :: "int \<times> int \<times> int \<times> int option"
  input_dtype :: DType
  output_dtype :: DType
  kernels :: "triton_kernel list"
  compute_dtype :: torch_dtype
  acc_dtype :: tl_dtype
  W_q :: "32 word buffer"
  scales :: "'f buffer"
  zeros :: "'f buffer"
  bias :: "'f list option option"

definition cdiv :: "int \<Rightarrow> int \<Rightarrow> int" where
  "cdiv a b = (a + b - 1) div b"

definition SUPPORTED_BITS_TRITON :: "int list" where
  "SUPPORTED_BITS_TRITON = [1, 2, 4, 8]"

text \<open>
  The dtype dispatch of \<open>__init__\<close>: the kernel list and the compute dtype, or nothing
  when neither test of the source matches.
\<close>

definition triton_dispatch :: "DType \<Rightarrow> DType \<Rightarrow> (triton_kernel list \<times> torch_dtype) option" where
  "triton_dispatch idt odt =
     (let r1 = (if idt = FP16 \<and> odt = FP16
                then Some ([gemm_A16fWnO16f_int32packing, gemv_A16fWnO16f_int32packing], float16)
                else None);
          r2 = (if idt = BF16 \<and> odt = BF16
                then Some ([gemm_A16fWnO16f_int32packing], bfloat16)
                else r1)
      in r2)"

text \<open>\<open>torch.zeros\<close> of a 2D shape: a negative dimension is a \<open>RuntimeError\<close>.\<close>

definition torch_zeros_meta :: "int \<Rightarrow> int \<Rightarrow> error + 'a buffer" where
  "torch_zeros_meta r c = (if r < 0 \<or> c < 0 then Inl RuntimeError else Inr (OnMeta (nat r) (nat c)))"

text \<open>
  \<open>GemLiteLinearTriton.__init__\<close>, returning the buffers registered so far together
  with the exception or the instance.
\<close>

definition GemLiteLinearTriton_init ::
  "int \<Rightarrow> int option \<Rightarrow> int \<Rightarrow> int \<Rightarrow> DType \<Rightarrow> DType \<Rightarrow> DType option
     \<Rightarrow> event list \<times> (error + 'f triton_linear)" where
  "GemLiteLinearTriton_init nbits gs fin fout idt odt acc =
     (if nbits \<notin> set SUPPORTED_BITS_TRITON then ([], Inl UnsupportedBitWidth)
      else if fin mod 128 \<noteq> 0 \<or> fout mod 128 \<noteq> 0 then ([], Inl InvalidShape)
      else
        (case triton_dispatch idt odt of
           None \<Rightarrow> ([], Inl (NotImplementedError ''Unsupport settings: ''))
         | Some (ks, cdt) \<Rightarrow>
            let group = (case gs of None \<Rightarrow> fin | Some g \<Rightarrow> g);
                acc1 = (case acc of None \<Rightarrow> (if cdt = float16 then FP16 else FP32) | Some a \<Rightarrow> a);
                acc2 = (if acc1 = FP16 then tl_float16 else tl_float32)
            in if group = 0 then ([], Inl ZeroDivisionError)
               else
                 let num_groups = cdiv fin group in
                 (case torch_zeros_meta (fin div 32 * nbits) fout of
                    Inl e \<Rightarrow> ([], Inl e)
                  | Inr wq \<Rightarrow>
                     let ev1 = [Alloc ''W_q'' (nat (fin div 32 * nbits)) (nat fout)] in
                     (case torch_zeros_meta num_groups fout of
                        Inl e \<Rightarrow> (ev1, Inl e)
                      | Inr sc \<Rightarrow>
                         let ev2 = ev1 @ [Alloc ''scales'' (nat num_groups) (nat fout)] in
                         (case torch_zeros_meta num_groups fout of
                            Inl e \<Rightarrow> (ev2, Inl e)
                          | Inr zs \<Rightarrow>
                             (ev2 @ [Alloc ''zeros'' (nat num_groups) (nat fout)],
                              Inr \<lparr> in_features = fin, out_features = fout,
                                    orig_shape = (fout, fin), W_nbits = nbits,
                                    group_size = group, unpack_mask = 2 ^ nat nbits - 1,
                                    elements_per_sample = 32 div nbits,
                                    signature = (fin, fout, nbits, gs),
                                    input_dtype = idt, output_dtype = odt,
                                    kernels = ks, compute_dtype = cdt, acc_dtype = acc2,
                                    W_q = wq, scales = sc, zeros = zs,
                                    bias = None \<rparr>))))))"

section \<open>Triton backend: autotune cache and forward pass\<close>

text \<open>
  The key of \<open>GEMLITE_TRITON_CACHE\<close> is \<open>(x.shape[0],) + self.signature\<close>; an entry
  holds the chosen kernel and its measured time. Latencies are values of a linear order
  (\<open>do_bench\<close> returns a float; a NaN measurement is outside the model).
\<close>

type_synonym cache_key = "nat \<times> int \<times> int \<times> int \<times> int option"

record 't cache_entry =
  forward :: triton_kernel
  time :: 't

type_synonym 't cache = "cache_key \<rightharpoonup> 't cache_entry"

text \<open>
  Modelled from the spec: the attribute \<open>matmul_type\<close> of the kernel objects is defined
  in \<open>gemlite/triton_kernels\<close>, which is not among the sources. The GEMV-oriented kernel
  carries \<open>GEMV\<close> and the GEMM-oriented one \<open>GEMM\<close>, as the keys of
  \<open>GEMLITE_TRITON_MAPPING\<close> name them.
\<close>

fun matmul_type :: "triton_kernel \<Rightarrow> string" where
  "matmul_type gemm_A16fWnO16f_int32packing = ''GEMM''"
| "matmul_type gemv_A16fWnO16f_int32packing = ''GEMV''"

text \<open>
  The loop of \<open>warmup\<close>: \<open>bench k\<close> is the result of \<open>eval_time(k.forward, args)\<close>, with
  \<open>None\<close> for a measurement that raises; the exception then leaves \<open>warmup\<close>.
\<close>

fun warmup_times ::
  "(triton_kernel \<Rightarrow> 't option) \<Rightarrow> nat \<Rightarrow> triton_kernel list \<Rightarrow> event list \<times> (error + 't list)" where
  "warmup_times bench b [] = ([], Inr [])"
| "warmup_times bench b (k # ks) =
     (if b > 8 \<and> matmul_type k = ''GEMV'' then warmup_times bench b ks
      else
        (case bench k of
           None \<Rightarrow> ([Bench k], Inl BenchmarkFailure)
         | Some t \<Rightarrow>
            (case warmup_times bench b ks of
               (ev, Inl e) \<Rightarrow> (Bench k # ev, Inl e)
             | (ev, Inr ts) \<Rightarrow> (Bench k # ev, Inr (t # ts)))))"

text \<open>The kernels that the loop of \<open>warmup\<close> does not skip, for batch component \<open>b\<close>.\<close>

definition candidates :: "nat \<Rightarrow> triton_kernel list \<Rightarrow> triton_kernel list" where
  "candidates b ks = filter (\<lambda>k. \<not> (b > 8 \<and> matmul_type k = ''GEMV'')) ks"

text \<open>\<open>np.argmin\<close>: the first index of the least element; \<open>ValueError\<close> on an empty list.\<close>

fun argmin_from :: "'t::linorder list \<Rightarrow> nat \<Rightarrow> nat \<Rightarrow> 't \<Rightarrow> nat" where
  "argmin_from [] i bi b = bi"
| "argmin_from (x # xs) i bi b =
     (if x < b then argmin_from xs (Suc i) i x else argmin_from xs (Suc i) bi b)"

definition np_argmin :: "'t::linorder list \<Rightarrow> error + nat" where
  "np_argmin ts = (case ts of [] \<Rightarrow> Inl ValueError | x # xs \<Rightarrow> Inr (argmin_from xs 1 0 x))"

text \<open>
  \<open>warmup\<close>: \<open>indx\<close> is an index into the list \<open>t\<close> of measurements and is used to index
  \<open>self.kernels\<close> as well, as in the source.
\<close>

definition warmup ::
  "'f triton_linear \<Rightarrow> cache_key \<Rightarrow> (triton_kernel \<Rightarrow> 't option) \<Rightarrow> ('t::linorder) cache
     \<Rightarrow> event list \<times> (error + 't cache)" where
  "warmup self sg bench c =
     (case warmup_times bench (fst sg) (kernels self) of
        (ev, Inl e) \<Rightarrow> (ev, Inl e)
      | (ev, Inr t) \<Rightarrow>
         (case np_argmin t of
            Inl e \<Rightarrow> (ev, Inl e)
          | Inr indx \<Rightarrow>
             if indx < length (kernels self)
             then (ev, Inr (c(sg \<mapsto> \<lparr>forward = kernels self ! indx, time = t ! indx\<rparr>)))
             else (ev, Inl IndexError)))"

text \<open>
  \<open>forward_auto\<close> on an input of shape \<open>xs\<close>. \<open>x.shape[-1]\<close> of a 0-dimensional tensor
  is an \<open>IndexError\<close>; \<open>x.view(-1, 0)\<close> is a \<open>RuntimeError\<close>; otherwise the view has
  \<open>prod_list (butlast xs)\<close> rows. The kernel launch is the event \<open>Invoke k rows cols\<close>.
  \<open>self.bias\<close> is assigned by \<open>pack\<close> only, so reading it before is an
  \<open>AttributeError\<close>. The result is the events, the exception or the shape of the output,
  and the cache as the call leaves it.
\<close>

definition cache_key_of :: "'f triton_linear \<Rightarrow> nat list \<Rightarrow> cache_key" where
  "cache_key_of self xs = (hd xs, signature self)"

definition forward_auto ::
  "'f triton_linear \<Rightarrow> nat list \<Rightarrow> (triton_kernel \<Rightarrow> 't option) \<Rightarrow> ('t::linorder) cache
     \<Rightarrow> (event list \<times> (error + nat list)) \<times> 't cache" where
  "forward_auto self xs bench c =
     (if xs = [] then (([], Inl IndexError), c)
      else if last xs = 0 then (([], Inl RuntimeError), c)
      else
        let out_shape = butlast xs @ [nat (out_features self)];
            rows = prod_list (butlast xs);
            sg = cache_key_of self xs;
            (ev, r) = (if c sg = None then warmup self sg bench c else ([], Inr c))
        in (case r of
              Inl e \<Rightarrow> ((ev, Inl e), c)
            | Inr c' \<Rightarrow>
               (case c' sg of
                  None \<Rightarrow> ((ev, Inl (KeyError 0)), c')
                | Some entry \<Rightarrow>
                   let ev' = ev @ [Invoke (forward entry) rows (last xs)] in
                   (case bias self of
                      None \<Rightarrow> ((ev', Inl (AttributeError ''bias'')), c')
                    | Some _ \<Rightarrow> ((ev', Inr out_shape), c')))))"

text \<open>A process: a sequence of forward calls on the one global cache.\<close>

record ('f, 't) call =
  call_self :: "'f triton_linear"
  call_shape :: "nat list"
  call_bench :: "triton_kernel \<Rightarrow> 't option"

fun run_calls :: "('t::linorder) cache \<Rightarrow> ('f, 't) call list \<Rightarrow> 't cache" where
  "run_calls c [] = c"
| "run_calls c (x # xs) =
     run_calls (snd (forward_auto (call_self x) (call_shape x) (call_bench x) c)) xs"

section \<open>Bit packing\<close>

subsection \<open>Tensor operations\<close>

text \<open>A row-major table of \<open>r\<close> rows and \<open>w\<close> columns, flattened.\<close>

definition tabulate2 :: "nat \<Rightarrow> nat \<Rightarrow> (nat \<Rightarrow> nat \<Rightarrow> 'a) \<Rightarrow> 'a list" where
  "tabulate2 r w f = concat (map (\<lambda>i. map (f i) [0..<w]) [0..<r])"

text \<open>The bitwise OR of \<open>f 0, ..., f (m - 1)\<close>.\<close>

primrec big_or :: "(nat \<Rightarrow> 32 word) \<Rightarrow> nat \<Rightarrow> 32 word" where
  "big_or f 0 = 0"
| "big_or f (Suc m) = big_or f m OR f m"

text \<open>\<open>np.ceil(a / b)\<close> on integers, \<open>b\<close> not zero (float rounding is outside the model).\<close>

definition py_ceil_div :: "int \<Rightarrow> int \<Rightarrow> int" where
  "py_ceil_div a b = - ((- a) div b)"

text \<open>\<open>torch.nn.functional.pad(W, pad=(0, p), value=0)\<close>: \<open>p\<close> zero columns on the right.\<close>

definition F_pad :: "nat \<Rightarrow> ('a::zero) matrix \<Rightarrow> 'a matrix" where
  "F_pad p m =
     \<lparr> nrows = nrows m, ncols = ncols m + p,
       cells = tabulate2 (nrows m) (ncols m + p)
                 (\<lambda>r c. if c < ncols m then cells m ! (r * ncols m + c) else 0) \<rparr>"

text \<open>
  \<open>reshape(-1, w)\<close> and \<open>view(-1, w)\<close> of a contiguous tensor, as the list of its rows:
  a \<open>RuntimeError\<close> when the size is not a multiple of \<open>w\<close>. An empty tensor has zero
  rows (only a width of zero leaves the \<open>-1\<close> ambiguous).
\<close>

definition reshape_rows :: "nat \<Rightarrow> 'a list \<Rightarrow> error + 'a list list" where
  "reshape_rows w xs =
     (if w = 0 \<or> length xs mod w \<noteq> 0 then Inl RuntimeError
      else Inr (map (\<lambda>r. take w (drop (r * w) xs)) [0..<length xs div w]))"

text \<open>
  \<open>reshape((r, c))\<close> to two dimensions given as Python integers: one of them may be
  \<open>-1\<close> and is then inferred; any other mismatch is a \<open>RuntimeError\<close>.
\<close>

definition torch_reshape2 :: "int \<Rightarrow> int \<Rightarrow> 'a matrix \<Rightarrow> error + 'a matrix" where
  "torch_reshape2 r c m =
     (let n = length (cells m) in
      if r = -1 \<and> c = -1 then Inl RuntimeError
      else if r = -1 then
        (if 0 < c \<and> n mod nat c = 0
         then Inr \<lparr>nrows = n div nat c, ncols = nat c, cells = cells m\<rparr>
         else Inl RuntimeError)
      else if c = -1 then
        (if 0 < r \<and> n mod nat r = 0
         then Inr \<lparr>nrows = nat r, ncols = n div nat r, cells = cells m\<rparr>
         else Inl RuntimeError)
      else if 0 \<le> r \<and> 0 \<le> c \<and> nat r * nat c = n
        then Inr \<lparr>nrows = nat r, ncols = nat c, cells = cells m\<rparr>
      else Inl RuntimeError)"

text \<open>\<open>m.t().contiguous()\<close>.\<close>

definition t_contiguous :: "'a matrix \<Rightarrow> 'a matrix" where
  "t_contiguous m =
     \<lparr> nrows = ncols m, ncols = nrows m,
       cells = tabulate2 (ncols m) (nrows m) (\<lambda>c r. cells m ! (r * ncols m + c)) \<rparr>"

text \<open>\<open>m.to(torch.int32)\<close> of a \<open>uint8\<close> tensor.\<close>

definition to_int32 :: "8 word matrix \<Rightarrow> 32 word matrix" where
  "to_int32 m = \<lparr>nrows = nrows m, ncols = ncols m, cells = map ucast (cells m)\<rparr>"

text \<open>The rows of a matrix.\<close>

definition rows :: "'a matrix \<Rightarrow> 'a list list" where
  "rows m = map (\<lambda>r. take (ncols m) (drop (r * ncols m) (cells m))) [0..<nrows m]"

text \<open>The slice \<open>xs[i::step]\<close> of rows, for a positive \<open>step\<close>.\<close>

definition strided :: "nat \<Rightarrow> nat \<Rightarrow> 'a list \<Rightarrow> 'a list" where
  "strided i step xs = map (\<lambda>j. xs ! (i + j * step)) [0..<(length xs + step - 1 - i) div step]"

text \<open>
  The assignment \<open>xs[i::step] = ys\<close>, for a positive \<open>step\<close> and as many \<open>ys\<close> as the
  slice has rows: row \<open>a\<close> is in the slice when \<open>i \<le> a\<close> and \<open>step\<close> divides \<open>a - i\<close>.
\<close>

definition strided_assign :: "nat \<Rightarrow> nat \<Rightarrow> 'a list \<Rightarrow> 'a list \<Rightarrow> 'a list" where
  "strided_assign i step xs ys =
     map (\<lambda>a. if i \<le> a \<and> (a - i) mod step = 0 \<and> (a - i) div step < length ys
               then ys ! ((a - i) div step) else xs ! a) [0..<length xs]"

text \<open>\<open>rows << s\<close> on \<open>int32\<close>: the bits shifted out are lost.\<close>

definition shl_rows :: "nat \<Rightarrow> 32 word list list \<Rightarrow> 32 word list list" where
  "shl_rows s = map (map (push_bit s))"

text \<open>
  The in-place \<open>acc |= x\<close> on tensors of equal width: \<open>x\<close> has as many rows as \<open>acc\<close>, or
  one row that is broadcast; anything else is a \<open>RuntimeError\<close>.
\<close>

definition ior_rows :: "32 word list list \<Rightarrow> 32 word list list \<Rightarrow> error + 32 word list list" where
  "ior_rows acc x =
     (if length x = length acc then Inr (map2 (map2 (OR)) acc x)
      else if length x = 1 then Inr (map (\<lambda>a. map2 (OR) a (hd x)) acc)
      else Inl RuntimeError)"

subsection \<open>Layout A: GemLiteLinearCUDA.pack and unpack\<close>

text \<open>
  The loop \<open>for i in range(1, step)\<close> of \<open>pack\<close>, on the running \<open>shift\<close> and
  \<open>W_q_packed\<close>. \<open>step * W_nbits \<le> 32\<close>, so the subtraction never goes below zero.
\<close>

fun pack_loop ::
  "nat \<Rightarrow> nat \<Rightarrow> 32 word list list \<Rightarrow> nat list \<Rightarrow> nat \<times> 32 word list list
     \<Rightarrow> error + nat \<times> 32 word list list" where
  "pack_loop n step W [] st = Inr st"
| "pack_loop n step W (i # is) (shift, acc) =
     (case ior_rows acc (shl_rows (shift - n) (strided i step W)) of
        Inl e \<Rightarrow> Inl e
      | Inr acc' \<Rightarrow> pack_loop n step W is (shift - n, acc'))"

text \<open>
  The packing statements of \<open>GemLiteLinearCUDA.pack\<close>, from \<open>tile_size = ...\<close> to the
  value assigned to \<open>self.W_q\<close>. The codes are \<open>uint8\<close> and are converted to \<open>int32\<close>
  after padding. A zero \<open>W_nbits\<close> or \<open>step\<close> is a division by zero; a negative \<open>step\<close>
  pads nothing and is rejected by the slice with a \<open>ValueError\<close>.
\<close>

definition cuda_pack_words :: "int \<Rightarrow> 8 word matrix \<Rightarrow> error + 32 word matrix" where
  "cuda_pack_words nbits Wq =
     (let tile_size = threads_per_group in
      if nbits = 0 then Inl ZeroDivisionError
      else
        let step = 32 div nbits in
        if step = 0 then Inl ZeroDivisionError
        else
          let pad = step * py_ceil_div (int (ncols Wq)) step - int (ncols Wq);
              Wp = (if pad > 0 then F_pad (nat pad) Wq else Wq)
          in (case reshape_rows tile_size (map ucast (cells Wp)) of
                Inl e \<Rightarrow> Inl e
              | Inr W \<Rightarrow>
                 if step < 0 then Inl ValueError
                 else
                   (case pack_loop (nat nbits) (nat step) W [1..<nat step]
                           (32 - nat nbits, shl_rows (32 - nat nbits) (strided 0 (nat step) W)) of
                      Inl e \<Rightarrow> Inl e
                    | Inr (shift, packed_rows) \<Rightarrow>
                       if length (concat packed_rows) = nrows Wp * (ncols Wp div nat step)
                       then Inr \<lparr> nrows = nrows Wp, ncols = ncols Wp div nat step,
                                  cells = concat packed_rows \<rparr>
                       else Inl RuntimeError)))"

text \<open>
  \<open>GemLiteLinearCUDA.pack\<close>. The scales are \<open>None\<close>, a scalar or a tensor; the zeros a
  scalar or a tensor; a scalar becomes a 1 by 1 tensor where the source builds one. An
  exception leaves the method; the partly assigned instance is not returned.
\<close>

definition GemLiteLinearCUDA_pack ::
  "'f cuda_linear \<Rightarrow> 8 word matrix \<Rightarrow> 'f meta option \<Rightarrow> 'f meta \<Rightarrow> 'f list option
     \<Rightarrow> error + 'f cuda_linear" where
  "GemLiteLinearCUDA_pack self Wq sc zs b =
     (case cuda_pack_words (cuda_linear.W_nbits self) Wq of
        Inl e \<Rightarrow> Inl e
      | Inr packed \<Rightarrow>
         (case (cuda_linear.has_scales self, cuda_linear.zero_is_tensor self) of
            (None, _) \<Rightarrow> Inl (AttributeError ''has_scales'')
          | (Some hs, None) \<Rightarrow>
              if hs \<noteq> (sc \<noteq> None) then Inl AssertionError
              else Inl (AttributeError ''zero_is_tensor'')
          | (Some hs, Some zt) \<Rightarrow>
              if hs \<noteq> (sc \<noteq> None) then Inl AssertionError
              else
                let as_tensor = (\<lambda>v. case v of
                       Tensor t \<Rightarrow> Tensor t
                     | Scalar x \<Rightarrow> Tensor \<lparr>nrows = 1, ncols = 1, cells = [x]\<rparr>);
                    is_tensor = (\<lambda>v. case v of Tensor t \<Rightarrow> True | Scalar x \<Rightarrow> False)
                in
                (case (case sc of
                         None \<Rightarrow> Inr None
                       | Some s \<Rightarrow>
                          if zt then Inr (Some (as_tensor s))
                          else if is_tensor s then Inl AssertionError
                          else Inr (Some s)) of
                   Inl e \<Rightarrow> Inl e
                 | Inr sc' \<Rightarrow>
                    (case (if zt then Inr (as_tensor zs)
                           else if is_tensor zs then Inl AssertionError
                           else Inr zs) of
                       Inl e \<Rightarrow> Inl e
                     | Inr zs' \<Rightarrow>
                        Inr (self\<lparr> cuda_linear.W_q := Some packed,
                                   cuda_linear.scales := Some sc',
                                   cuda_linear.zeros := Some zs',
                                   cuda_linear.bias := Some b \<rparr>)))))"

text \<open>
  The loop of \<open>unpack\<close>: \<open>W_r[i::step, :] = (W_q_packed >> shift) & mask\<close>, with \<open>>>\<close>
  the arithmetic shift of \<open>int32\<close> and the result stored as \<open>uint8\<close>.
\<close>

fun unpack_loop ::
  "nat \<Rightarrow> nat \<Rightarrow> 32 word \<Rightarrow> 32 word list list \<Rightarrow> nat list \<Rightarrow> nat \<times> 8 word list list
     \<Rightarrow> nat \<times> 8 word list list" where
  "unpack_loop n step msk P [] st = st"
| "unpack_loop n step msk P (i # is) (shift, W_r) =
     unpack_loop n step msk P is
       (shift - n,
        strided_assign i step W_r
          (map (map (\<lambda>w. ucast (signed_drop_bit (shift - n) w AND msk))) P))"

text \<open>
  \<open>GemLiteLinearCUDA.unpack\<close> with the default \<open>dtype=torch.uint8\<close>. The argument
  \<open>W_q_packed\<close> is overwritten before it is read: every read is of the attribute
  \<open>self.W_q_packed\<close>. \<open>torch.empty\<close> is modelled by zeros; every row is assigned by the
  loop. A negative \<open>step\<close> makes \<open>torch.empty\<close> fail; with \<open>step = 0\<close> the loop is empty.
\<close>

definition GemLiteLinearCUDA_unpack ::
  "'f cuda_linear \<Rightarrow> 32 word matrix \<Rightarrow> error + 8 word matrix" where
  "GemLiteLinearCUDA_unpack self W_q_packed_arg =
     (let tile_size = threads_per_group in
      if cuda_linear.W_nbits self = 0 then Inl ZeroDivisionError
      else
        let step = 32 div cuda_linear.W_nbits self in
        (case cuda_linear.W_q_packed self of
           None \<Rightarrow> Inl (AttributeError ''W_q_packed'')
         | Some P \<Rightarrow>
            (case reshape_rows tile_size (cells P) of
               Inl e \<Rightarrow> Inl e
             | Inr Pk \<Rightarrow>
                if step < 0 then Inl RuntimeError
                else
                  let W_r = replicate (nat step * length (cells P) div tile_size)
                              (replicate tile_size 0);
                      msk = word_of_int (2 ^ nat (cuda_linear.W_nbits self) - 1);
                      (shift, W_r') = unpack_loop (nat (cuda_linear.W_nbits self)) (nat step) msk Pk
                                        [0..<nat step] (32, W_r)
                  in if length (concat W_r') = nrows P * (ncols P * nat step)
                     then Inr \<lparr> nrows = nrows P, ncols = ncols P * nat step,
                                cells = concat W_r' \<rparr>
                     else Inl RuntimeError)))"

subsection \<open>Layout B: GemLiteLinearTriton.pack\<close>

text \<open>
  The inner loop \<open>for j in range(i, i + step)\<close>, on the running \<open>shift\<close> and the row
  \<open>self.W_q[row]\<close>; reading a row of the transposed codes out of range is an
  \<open>IndexError\<close>.
\<close>

fun pack_inner ::
  "nat \<Rightarrow> 32 word list list \<Rightarrow> nat list \<Rightarrow> nat \<times> 32 word list
     \<Rightarrow> error + nat \<times> 32 word list" where
  "pack_inner n Wt [] st = Inr st"
| "pack_inner n Wt (j # js) (shift, acc) =
     (if j < length Wt
      then pack_inner n Wt js (shift + n, map2 (OR) acc (map (push_bit shift) (Wt ! j)))
      else Inl IndexError)"

text \<open>The loop \<open>while row < self.W_q.shape[0]\<close>.\<close>

function pack_while ::
  "nat \<Rightarrow> nat \<Rightarrow> 32 word list list \<Rightarrow> nat \<Rightarrow> nat \<Rightarrow> 32 word list list
     \<Rightarrow> error + 32 word list list" where
  "pack_while n step Wt i row Wq =
     (if row < length Wq then
        (case pack_inner n Wt [i..<i + step] (0, Wq ! row) of
           Inl e \<Rightarrow> Inl e
         | Inr (shift, r) \<Rightarrow> pack_while n step Wt (i + step) (row + 1) (Wq[row := r]))
      else Inr Wq)"
  by pat_completeness auto
termination
  by (relation "measure (\<lambda>(n, step, Wt, i, row, Wq). length Wq - row)") auto

text \<open>
  The packing statements of \<open>GemLiteLinearTriton.pack\<close>, from the reshape of the codes
  to the value assigned to \<open>self.W_q\<close>. \<open>torch.zeros\<close> of a negative size is a
  \<open>RuntimeError\<close>.
\<close>

definition triton_pack_words :: "int \<Rightarrow> int \<times> int \<Rightarrow> 8 word matrix \<Rightarrow> error + 32 word matrix" where
  "triton_pack_words nbits oshape Wq =
     (case torch_reshape2 (fst oshape) (snd oshape) Wq of
        Inl e \<Rightarrow> Inl e
      | Inr W1 \<Rightarrow>
         let Wt = to_int32 (t_contiguous W1);
             R = int (nrows Wt) div 32 * nbits
         in if R < 0 then Inl RuntimeError
            else if nbits = 0 then Inl ZeroDivisionError
            else
              let step = 32 div nbits in
              (case pack_while (nat nbits) (nat step) (rows Wt) 0 0
                      (replicate (nat R) (replicate (ncols Wt) 0)) of
                 Inl e \<Rightarrow> Inl e
               | Inr packed_rows \<Rightarrow>
                  Inr \<lparr>nrows = nat R, ncols = ncols Wt, cells = concat packed_rows\<rparr>))"

text \<open>
  \<open>GemLiteLinearTriton.pack\<close>: the scales and zeros are reshaped to
  \<open>(out_features, in_features // group_size)\<close> and transposed.
\<close>

definition GemLiteLinearTriton_pack ::
  "'f triton_linear \<Rightarrow> 8 word matrix \<Rightarrow> 'f matrix \<Rightarrow> 'f matrix \<Rightarrow> 'f list option
     \<Rightarrow> error + 'f triton_linear" where
  "GemLiteLinearTriton_pack self Wq sc zs b =
     (case triton_pack_words (W_nbits self) (orig_shape self) Wq of
        Inl e \<Rightarrow> Inl e
      | Inr packed \<Rightarrow>
         if group_size self = 0 then Inl ZeroDivisionError
         else
           let num_groups = in_features self div group_size self in
           (case torch_reshape2 (out_features self) num_groups sc of
              Inl e \<Rightarrow> Inl e
            | Inr sc' \<Rightarrow>
               (case torch_reshape2 (out_features self) num_groups zs of
                  Inl e \<Rightarrow> Inl e
                | Inr zs' \<Rightarrow>
                   Inr (self\<lparr> W_q := OnDevice packed,
                              scales := OnDevice (t_contiguous sc'),
                              zeros := OnDevice (t_contiguous zs'),
                              bias := Some b \<rparr>))))"

text \<open>
  Modelled from the spec: Layout B has no \<open>unpack\<close> among the sources (the words are
  unpacked inside the kernels of \<open>gemlite/triton_kernels\<close>). Following the spec's
  \<open>unpack(packed_words, bit_width, original_shape) -> codes\<close> and its Layout B: the code
  of input index \<open>j\<close> and output row \<open>r\<close> is read from word \<open>(j div k, r)\<close> at shift
  \<open>n * (j mod k)\<close>, least-significant code first.
\<close>

definition unpack_layout_B :: "nat \<Rightarrow> nat \<times> nat \<Rightarrow> 32 word matrix \<Rightarrow> 8 word matrix" where
  "unpack_layout_B n original_shape P =
     (let k = 32 div n in
      \<lparr> nrows = fst original_shape, ncols = snd original_shape,
        cells = tabulate2 (fst original_shape) (snd original_shape)
                  (\<lambda>r j. ucast (drop_bit (n * (j mod k)) (cells P ! ((j div k) * ncols P + r))
                                  AND mask n)) \<rparr>)"



text \<open>
  What \<open>GemLiteLinearCUDA.__init__\<close> establishes whenever it sets \<open>forward_raw\<close>: the
  bit-width is a key of the kernel tables and both flags are assigned.
\<close>

definition cuda_ready :: "'f cuda_linear \<Rightarrow> bool" where
  "cuda_ready s \<longleftrightarrow>
     (cuda_linear.forward_raw s \<noteq> None \<longrightarrow>
        cuda_linear.W_nbits s \<in> {2, 4, 8} \<and> cuda_linear.has_scales s \<noteq> None
        \<and> cuda_linear.zero_is_tensor s \<noteq> None)"

text \<open>
  A Layout A example: an 8-bit operator of 128 input features and one output row, and
  its codes \<open>0, ..., 127\<close>, after \<open>__init__\<close> and after \<open>pack\<close>.
\<close>

definition example_cuda :: "error + unit cuda_linear" where
  "example_cuda = GemLiteLinearCUDA_init 8 (Some 128) 128 1 FP16 FP16"

definition example_codes :: "8 word matrix" where
  "example_codes = \<lparr>nrows = 1, ncols = 128, cells = map word_of_nat [0..<128]\<rparr>"

definition example_cuda_packed :: "error + unit cuda_linear" where
  "example_cuda_packed =
     GemLiteLinearCUDA_pack (projr example_cuda) example_codes (Some (Scalar ())) (Scalar ()) None"






text \<open>
  The operator of the spec's concrete scenario, as \<open>__init__\<close> builds it: 4-bit weights,
  256 by 256 features, \<open>group_size = 128\<close>, FP16 in and out.
\<close>

definition example_self :: "unit triton_linear" where
  "example_self =
     \<lparr> in_features = 256, out_features = 256, orig_shape = (256, 256), W_nbits = 4,
       group_size = 128, unpack_mask = 15, elements_per_sample = 8,
       signature = (256, 256, 4, Some 128), input_dtype = FP16, output_dtype = FP16,
       kernels = [gemm_A16fWnO16f_int32packing, gemv_A16fWnO16f_int32packing],
       compute_dtype = float16, acc_dtype = tl_float16,
       W_q = OnMeta 32 256, scales = OnMeta 2 256, zeros = OnMeta 2 256, bias = None \<rparr>"

text \<open>
  The same operator once \<open>pack(..., bias=None)\<close> has assigned \<open>self.bias\<close> (the buffers
  that \<open>pack\<close> replaces play no part in \<open>forward_auto\<close>), and the cache that its first
  forward call on a batch of 2 leaves when both kernels are measured at 5.
\<close>

definition example_self_packed :: "unit triton_linear" where
  "example_self_packed = example_self\<lparr>bias := Some None\<rparr>"

definition example_shared_cache :: "nat cache" where
  "example_shared_cache =
     [(2, 256, 256, 4, Some 128) \<mapsto> \<lparr>forward = gemm_A16fWnO16f_int32packing, time = 5\<rparr>]"

text \<open>
  A Layout B example for the same operator: codes of shape \<open>(256, 256)\<close> whose value is
  the input index modulo 16, and scales (and zeros) of shape \<open>(256, 2)\<close>.
\<close>

definition example_codes_B :: "8 word matrix" where
  "example_codes_B =
     \<lparr>nrows = 256, ncols = 256, cells = map (\<lambda>i. word_of_nat (i mod 16)) [0..<65536]\<rparr>"

definition example_scales_B :: "unit matrix" where
  "example_scales_B = \<lparr>nrows = 256, ncols = 2, cells = replicate 512 ()\<rparr>"

section \<open>Construction: checks and their order\<close>

lemma triton_init_bad_bits:
  "nbits \<notin> {1, 2, 4, 8} \<Longrightarrow>
   GemLiteLinearTriton_init nbits gs fin fout idt odt acc = ([], Inl UnsupportedBitWidth)"
  by (simp add: GemLiteLinearTriton_init_def SUPPORTED_BITS_TRITON_def)

lemma triton_init_bad_shape:
  "nbits \<in> {1, 2, 4, 8} \<Longrightarrow> fin mod 128 \<noteq> 0 \<or> fout mod 128 \<noteq> 0 \<Longrightarrow>
   GemLiteLinearTriton_init nbits gs fin fout idt odt acc = ([], Inl InvalidShape)"
  by (auto simp add: GemLiteLinearTriton_init_def SUPPORTED_BITS_TRITON_def)

lemma errors_distinct:
  "UnsupportedBitWidth \<noteq> InvalidShape"
  "UnsupportedBitWidth \<noteq> NotImplementedError ''Unsupport settings: ''"
  "InvalidShape \<noteq> NotImplementedError ''Unsupport settings: ''"
  "UnsupportedBitWidth \<noteq> ZeroDivisionError" "UnsupportedBitWidth \<noteq> RuntimeError"
  "InvalidShape \<noteq> ZeroDivisionError" "InvalidShape \<noteq> RuntimeError"
  by (simp_all add: UnsupportedBitWidth_def InvalidShape_def)

lemma triton_init_cases:
  fixes r :: "event list \<times> (error + 'f triton_linear)"
  assumes "r = GemLiteLinearTriton_init nbits gs fin fout idt odt acc"
    and "nbits \<in> {1, 2, 4, 8}" and "fin mod 128 = 0" and "fout mod 128 = 0"
  shows "snd r = Inl (NotImplementedError ''Unsupport settings: '') \<or> snd r = Inl ZeroDivisionError
         \<or> snd r = Inl RuntimeError \<or> \<not> isl (snd r)"
  using assms
  by (auto simp add: GemLiteLinearTriton_init_def SUPPORTED_BITS_TRITON_def Let_def
      torch_zeros_meta_def split: option.splits sum.splits prod.splits)

text \<open>
  C4. A bit-width outside \<open>{1, 2, 4, 8}\<close> makes \<open>GemLiteLinearTriton.__init__\<close> raise the
  bit-width error (\<open>UnsupportedBitWidth\<close>) with no buffer registered, whatever the other
  arguments are; a bit-width inside the set never gives this error.
\<close>

theorem triton_init_bit_width_check:
  "(nbits \<notin> {1, 2, 4, 8} \<longrightarrow>
      (GemLiteLinearTriton_init nbits gs fin fout idt odt acc
         :: event list \<times> (error + 'f triton_linear)) = ([], Inl UnsupportedBitWidth))
   \<and> (nbits \<in> {1, 2, 4, 8} \<longrightarrow>
      snd (GemLiteLinearTriton_init nbits gs fin fout idt odt acc
         :: event list \<times> (error + 'f triton_linear)) \<noteq> Inl UnsupportedBitWidth)"
proof (intro conjI impI)
  assume "nbits \<notin> {1, 2, 4, 8}"
  then show "(GemLiteLinearTriton_init nbits gs fin fout idt odt acc
         :: event list \<times> (error + 'f triton_linear)) = ([], Inl UnsupportedBitWidth)"
    by (rule triton_init_bad_bits)
next
  assume ok: "nbits \<in> {1, 2, 4, 8}"
  let ?r = "GemLiteLinearTriton_init nbits gs fin fout idt odt acc
         :: event list \<times> (error + 'f triton_linear)"
  show "snd ?r \<noteq> Inl UnsupportedBitWidth"
  proof (cases "fin mod 128 = 0 \<and> fout mod 128 = 0")
    case True
    with triton_init_cases [OF refl ok, of fin fout gs idt odt acc, where 'f='f]
    show ?thesis using errors_distinct by (auto simp: isl_def)
  next
    case False
    then have "?r = ([], Inl InvalidShape)"
      using triton_init_bad_shape [OF ok] by blast
    then show ?thesis using errors_distinct by simp
  qed
qed

theorem triton_init_bit_width_check_witness:
  "(3::int) \<notin> {1, 2, 4, 8} \<and> (4::int) \<in> {1, 2, 4, 8}
   \<and> (GemLiteLinearTriton_init 3 (Some 128) 256 256 FP16 FP16 None
         :: event list \<times> (error + unit triton_linear)) = ([], Inl UnsupportedBitWidth)
   \<and> snd (GemLiteLinearTriton_init 4 (Some 128) 256 256 FP16 FP16 None
         :: event list \<times> (error + unit triton_linear)) \<noteq> Inl UnsupportedBitWidth"
  using triton_init_bit_width_check [of 3 "Some 128" 256 256 FP16 FP16 None, where 'f=unit]
    triton_init_bit_width_check [of 4 "Some 128" 256 256 FP16 FP16 None, where 'f=unit]
  by simp

text \<open>
  C5, as stated, fails where the bit-width is unsupported as well: the bit-width test comes
  first, so \<open>W_nbits = 3\<close> with \<open>in_features = 100\<close> raises the bit-width error and not
  \<open>InvalidShape\<close>.
\<close>

theorem triton_init_shape_check_counterexample:
  "(100::int) mod 128 \<noteq> 0 \<and>
   snd (GemLiteLinearTriton_init 3 (Some 100) 100 128 FP16 FP16 None
         :: event list \<times> (error + unit triton_linear)) \<noteq> Inl InvalidShape"
  using errors_distinct by (simp add: triton_init_bad_bits)

text \<open>
  C5, amended. With a supported bit-width, an \<open>in_features\<close> or \<open>out_features\<close> that is not
  a multiple of 128 makes \<open>GemLiteLinearTriton.__init__\<close> raise \<open>InvalidShape\<close> with no
  buffer registered and no kernel touched; multiples of 128 never give this error.
\<close>

theorem triton_init_shape_check:
  "nbits \<in> {1, 2, 4, 8} \<Longrightarrow>
   (fin mod 128 \<noteq> 0 \<or> fout mod 128 \<noteq> 0 \<longrightarrow>
      (GemLiteLinearTriton_init nbits gs fin fout idt odt acc
         :: event list \<times> (error + 'f triton_linear)) = ([], Inl InvalidShape))
   \<and> (fin mod 128 = 0 \<and> fout mod 128 = 0 \<longrightarrow>
      snd (GemLiteLinearTriton_init nbits gs fin fout idt odt acc
         :: event list \<times> (error + 'f triton_linear)) \<noteq> Inl InvalidShape)"
proof (intro conjI impI)
  assume ok: "nbits \<in> {1, 2, 4, 8}" and "fin mod 128 \<noteq> 0 \<or> fout mod 128 \<noteq> 0"
  then show "(GemLiteLinearTriton_init nbits gs fin fout idt odt acc
         :: event list \<times> (error + 'f triton_linear)) = ([], Inl InvalidShape)"
    by (rule triton_init_bad_shape)
next
  assume ok: "nbits \<in> {1, 2, 4, 8}" and m: "fin mod 128 = 0 \<and> fout mod 128 = 0"
  from m have m1: "fin mod 128 = 0" and m2: "fout mod 128 = 0" by simp_all
  from triton_init_cases [OF refl ok m1 m2, of gs idt odt acc, where 'f='f]
  show "snd (GemLiteLinearTriton_init nbits gs fin fout idt odt acc
         :: event list \<times> (error + 'f triton_linear)) \<noteq> Inl InvalidShape"
    using errors_distinct by (auto simp: isl_def)
qed

theorem triton_init_shape_check_witness:
  "(4::int) \<in> {1, 2, 4, 8} \<and> (100::int) mod 128 \<noteq> 0 \<and> (256::int) mod 128 = 0
   \<and> (GemLiteLinearTriton_init 4 (Some 100) 100 128 FP16 FP16 None
         :: event list \<times> (error + unit triton_linear)) = ([], Inl InvalidShape)
   \<and> snd (GemLiteLinearTriton_init 4 (Some 128) 256 256 FP16 FP16 None
         :: event list \<times> (error + unit triton_linear)) \<noteq> Inl InvalidShape"
  using triton_init_shape_check [of 4 100 128 "Some 100" FP16 FP16 None, where 'f=unit]
    triton_init_shape_check [of 4 256 256 "Some 128" FP16 FP16 None, where 'f=unit]
  by simp

lemma cuda_init_not_dividing:
  "\<not> g dvd fin * fout \<Longrightarrow>
   isl (GemLiteLinearCUDA_init nbits (Some g) fin fout idt odt :: error + 'f cuda_linear)"
  by (auto simp add: GemLiteLinearCUDA_init_def cuda_init_fp16_def cuda_init_int8_def
      cuda_init_fields_def mod_eq_0_iff_dvd split: option.splits sum.splits)

lemma cdiv_nonneg: "0 \<le> a \<Longrightarrow> 0 < b \<Longrightarrow> 0 \<le> cdiv a b"
  by (simp add: cdiv_def pos_imp_zdiv_nonneg_iff)

lemma triton_init_any_group_size:
  assumes "nbits \<in> {1, 2, 4, 8}" "0 \<le> fin" "0 \<le> fout" "fin mod 128 = 0" "fout mod 128 = 0"
    "triton_dispatch idt odt \<noteq> None" "0 < g"
  shows "\<not> isl (snd (GemLiteLinearTriton_init nbits (Some g) fin fout idt odt acc
            :: event list \<times> (error + 'f triton_linear)))"
proof -
  have a: "0 \<le> fin div 32 * nbits" using assms(1,2) by (auto simp: pos_imp_zdiv_nonneg_iff)
  have b: "0 \<le> cdiv fin g" using assms by (simp add: cdiv_nonneg)
  show ?thesis using assms a b
    by (auto simp add: GemLiteLinearTriton_init_def SUPPORTED_BITS_TRITON_def Let_def
      torch_zeros_meta_def split: option.splits sum.splits prod.splits)
qed

text \<open>
  C3, as stated, fails for Layout B: \<open>GemLiteLinearTriton.__init__\<close> has no test relating
  \<open>group_size\<close> to \<open>in_features\<close>; \<open>group_size = 100\<close> with \<open>in_features = 128\<close> constructs.
\<close>

theorem group_size_check_counterexample:
  "\<not> (100::int) dvd 128 \<and>
   \<not> isl (snd (GemLiteLinearTriton_init 4 (Some 100) 128 128 FP16 FP16 None
            :: event list \<times> (error + unit triton_linear)))"
  by (simp add: GemLiteLinearTriton_init_def SUPPORTED_BITS_TRITON_def Let_def
      torch_zeros_meta_def triton_dispatch_def cdiv_def)

text \<open>
  C3, amended. Constructing a Layout A (CUDA) operator whose \<open>group_size\<close> does not divide
  \<open>in_features * out_features\<close> fails at construction. The Layout B (Triton) constructor
  makes no divisibility test: with a supported bit-width, non-negative feature sizes that
  are multiples of 128 and a supported dtype pair, it succeeds for every positive
  \<open>group_size\<close>.
\<close>

theorem group_size_check:
  "(\<not> g dvd fin * fout \<longrightarrow>
      isl (GemLiteLinearCUDA_init nbits (Some g) fin fout idt odt :: error + 'f cuda_linear))
   \<and> (nbits' \<in> {1, 2, 4, 8} \<and> 0 \<le> fin' \<and> 0 \<le> fout' \<and> fin' mod 128 = 0 \<and> fout' mod 128 = 0
        \<and> triton_dispatch idt' odt' \<noteq> None \<and> 0 < g' \<longrightarrow>
      \<not> isl (snd (GemLiteLinearTriton_init nbits' (Some g') fin' fout' idt' odt' acc
            :: event list \<times> (error + 'f triton_linear))))"
  using cuda_init_not_dividing [of g fin fout nbits idt odt, where 'f='f]
    triton_init_any_group_size [of nbits' fin' fout' idt' odt' g' acc, where 'f='f]
  by blast

theorem group_size_check_witness:
  "\<not> (100::int) dvd 128 * 128
   \<and> isl (GemLiteLinearCUDA_init 4 (Some 100) 128 128 FP16 FP16 :: error + unit cuda_linear)
   \<and> (4::int) \<in> {1, 2, 4, 8} \<and> (0::int) \<le> 128 \<and> (128::int) mod 128 = 0
   \<and> triton_dispatch FP16 FP16 \<noteq> None \<and> (0::int) < 100
   \<and> \<not> isl (snd (GemLiteLinearTriton_init 4 (Some 100) 128 128 FP16 FP16 None
            :: event list \<times> (error + unit triton_linear)))"
  using group_size_check [of 100 128 128 4 FP16 FP16 4 128 128 FP16 FP16 100 None, where 'f=unit]
  by (simp add: triton_dispatch_def)

section \<open>Autotune cache\<close>

subsection \<open>np.argmin\<close>

lemma argmin_from_props:
  fixes ps :: "'t::linorder list"
  assumes "length ps = i" "bi < i" "ps ! bi = b" "\<forall>j<i. b \<le> ps ! j" "\<forall>j<bi. b < ps ! j"
  shows "argmin_from xs i bi b < i + length xs
    \<and> (\<forall>j < i + length xs. (ps @ xs) ! argmin_from xs i bi b \<le> (ps @ xs) ! j)
    \<and> (\<forall>j < argmin_from xs i bi b. (ps @ xs) ! argmin_from xs i bi b < (ps @ xs) ! j)"
  using assms
proof (induction xs arbitrary: ps i bi b)
  case Nil
  then show ?case by simp
next
  case (Cons x xs)
  show ?case
  proof (cases "x < b")
    case True
    have "argmin_from xs (Suc i) i x < Suc i + length xs
      \<and> (\<forall>j < Suc i + length xs. ((ps @ [x]) @ xs) ! argmin_from xs (Suc i) i x \<le> ((ps @ [x]) @ xs) ! j)
      \<and> (\<forall>j < argmin_from xs (Suc i) i x. ((ps @ [x]) @ xs) ! argmin_from xs (Suc i) i x < ((ps @ [x]) @ xs) ! j)"
    proof (rule Cons.IH)
      show "length (ps @ [x]) = Suc i" using Cons.prems by simp
      show "i < Suc i" by simp
      show "(ps @ [x]) ! i = x" using Cons.prems(1) by (auto simp: nth_append)
      show "\<forall>j<Suc i. x \<le> (ps @ [x]) ! j"
        using Cons.prems True by (auto simp: nth_append less_Suc_eq intro: less_imp_le order.strict_trans2)
      show "\<forall>j<i. x < (ps @ [x]) ! j"
        using Cons.prems True by (auto simp: nth_append intro: order.strict_trans2)
    qed
    with True show ?thesis by simp
  next
    case False
    have "argmin_from xs (Suc i) bi b < Suc i + length xs
      \<and> (\<forall>j < Suc i + length xs. ((ps @ [x]) @ xs) ! argmin_from xs (Suc i) bi b \<le> ((ps @ [x]) @ xs) ! j)
      \<and> (\<forall>j < argmin_from xs (Suc i) bi b. ((ps @ [x]) @ xs) ! argmin_from xs (Suc i) bi b < ((ps @ [x]) @ xs) ! j)"
    proof (rule Cons.IH)
      show "length (ps @ [x]) = Suc i" using Cons.prems by simp
      show "bi < Suc i" using Cons.prems by simp
      show "(ps @ [x]) ! bi = b" using Cons.prems by (simp add: nth_append)
      show "\<forall>j<Suc i. b \<le> (ps @ [x]) ! j"
        using Cons.prems False by (auto simp: nth_append less_Suc_eq)
      show "\<forall>j<bi. b < (ps @ [x]) ! j"
        using Cons.prems by (auto simp: nth_append)
    qed
    with False show ?thesis by simp
  qed
qed

lemma np_argmin_props:
  fixes ts :: "'t::linorder list"
  assumes "ts \<noteq> []"
  shows "\<exists>i < length ts. np_argmin ts = Inr i \<and> (\<forall>j < length ts. ts ! i \<le> ts ! j)
           \<and> (\<forall>j < i. ts ! i < ts ! j)"
proof -
  from assms obtain x xs where ts: "ts = x # xs" by (cases ts) auto
  have "argmin_from xs 1 0 x < 1 + length xs
    \<and> (\<forall>j < 1 + length xs. ([x] @ xs) ! argmin_from xs 1 0 x \<le> ([x] @ xs) ! j)
    \<and> (\<forall>j < argmin_from xs 1 0 x. ([x] @ xs) ! argmin_from xs 1 0 x < ([x] @ xs) ! j)"
    by (rule argmin_from_props) simp_all
  then show ?thesis unfolding ts np_argmin_def by simp
qed

subsection \<open>warmup\<close>


lemma warmup_times_total:
  assumes "\<forall>k. bench k = Some (lat k)"
  shows "warmup_times bench b ks = (map Bench (candidates b ks), Inr (map lat (candidates b ks)))"
  using assms by (induction ks) (auto simp: candidates_def)

lemma triton_init_kernels:
  assumes "GemLiteLinearTriton_init nbits gs fin fout idt odt acc = (evs, Inr self)"
  shows "kernels self = [gemm_A16fWnO16f_int32packing, gemv_A16fWnO16f_int32packing]
       \<or> kernels self = [gemm_A16fWnO16f_int32packing]"
  using assms
  by (auto simp add: GemLiteLinearTriton_init_def Let_def triton_dispatch_def
      split: if_splits option.splits sum.splits prod.splits)

lemma candidates_prefix:
  assumes "ks = [gemm_A16fWnO16f_int32packing, gemv_A16fWnO16f_int32packing]
       \<or> ks = [gemm_A16fWnO16f_int32packing]"
  shows "candidates b ks \<noteq> [] \<and> length (candidates b ks) \<le> length ks
     \<and> (\<forall>i < length (candidates b ks). ks ! i = candidates b ks ! i)"
  using assms by (auto simp: candidates_def less_Suc_eq)


lemma example_self_init:
  "GemLiteLinearTriton_init 4 (Some 128) 256 256 FP16 FP16 None =
     ([Alloc ''W_q'' 32 256, Alloc ''scales'' 2 256, Alloc ''zeros'' 2 256], Inr example_self)"
  by (simp add: GemLiteLinearTriton_init_def SUPPORTED_BITS_TRITON_def Let_def
      torch_zeros_meta_def triton_dispatch_def cdiv_def example_self_def)


subsection \<open>forward_auto\<close>

lemma warmup_cache:
  "warmup self sg bench c = (ev, Inr c') \<Longrightarrow> \<exists>e. c' = c(sg \<mapsto> e)"
  by (auto simp: warmup_def split: prod.splits sum.splits if_splits)

lemma warmup_times_events: "set (fst (warmup_times bench b ks)) \<subseteq> range Bench"
  by (induction ks) (auto split: option.splits prod.splits sum.splits)

lemma warmup_events: "set (fst (warmup self sg bench c)) \<subseteq> range Bench"
  using warmup_times_events [of bench "fst sg" "kernels self"]
  by (auto simp: warmup_def split: prod.splits sum.splits if_splits)

lemma forward_auto_bad_shape:
  "xs = [] \<or> last xs = 0 \<Longrightarrow> fst (fst (forward_auto self xs bench c)) = [] \<and> snd (forward_auto self xs bench c) = c"
  by (auto simp: forward_auto_def)

lemma forward_auto_hit:
  assumes "xs \<noteq> []" "last xs \<noteq> 0" "c (cache_key_of self xs) = Some e"
  shows "forward_auto self xs bench c =
     (([Invoke (forward e) (prod_list (butlast xs)) (last xs)],
       (case bias self of None \<Rightarrow> Inl (AttributeError ''bias'')
        | Some _ \<Rightarrow> Inr (butlast xs @ [nat (out_features self)]))), c)"
  using assms by (simp add: forward_auto_def Let_def split: option.splits)

lemma forward_auto_preserves:
  assumes "c sg = Some e"
  shows "snd (forward_auto self xs bench c) sg = Some e"
proof (cases "xs = [] \<or> last xs = 0")
  case True
  from forward_auto_bad_shape [OF True, of self bench c] assms show ?thesis by simp
next
  case False
  show ?thesis
  proof (cases "c (cache_key_of self xs)")
    case (Some e')
    with False assms show ?thesis by (simp add: forward_auto_hit)
  next
    case None
    with assms have ne: "cache_key_of self xs \<noteq> sg" by auto
    obtain ev r where w: "warmup self (cache_key_of self xs) bench c = (ev, r)" by force
    show ?thesis
    proof (cases r)
      case (Inl err)
      with False None w assms show ?thesis by (simp add: forward_auto_def Let_def)
    next
      case (Inr c')
      with warmup_cache w obtain e' where c': "c' = c(cache_key_of self xs \<mapsto> e')" by blast
      with False None w Inr assms ne show ?thesis
        by (simp add: forward_auto_def Let_def split: option.splits)
    qed
  qed
qed

lemma run_calls_preserves:
  "c sg = Some e \<Longrightarrow> run_calls c cs sg = Some e"
  by (induction cs arbitrary: c) (simp_all add: forward_auto_preserves)

lemma forward_auto_no_bench_on_hit:
  assumes "c (cache_key_of self xs) = Some e"
  shows "Bench k \<notin> set (fst (fst (forward_auto self xs bench c)))"
proof (cases "xs = [] \<or> last xs = 0")
  case True
  from forward_auto_bad_shape [OF True, of self bench c] show ?thesis by simp
next
  case False
  with assms show ?thesis by (simp add: forward_auto_hit)
qed

text \<open>
  C2. Let a forward call leave an entry \<open>e\<close> under its signature (the signature is
  resolved). After any further forward calls, by any operators on any inputs, the entry
  under that signature is still \<open>e\<close>; a call with an equal signature leaves the cache as
  it found it, measures no kernel, and launches exactly the kernel recorded in \<open>e\<close>.
\<close>

theorem signature_stability:
  fixes c0 :: "('t::linorder) cache"
  assumes first: "snd (forward_auto self1 xs1 bench1 c0) (cache_key_of self1 xs1) = Some e"
    and same: "cache_key_of self2 xs2 = cache_key_of self1 xs1"
    and later: "c = run_calls (snd (forward_auto self1 xs1 bench1 c0)) mid"
  shows "c (cache_key_of self1 xs1) = Some e
    \<and> snd (forward_auto self2 xs2 bench2 c) = c
    \<and> (\<forall>k. Bench k \<notin> set (fst (fst (forward_auto self2 xs2 bench2 c))))
    \<and> (xs2 \<noteq> [] \<and> last xs2 \<noteq> 0 \<longrightarrow>
         fst (fst (forward_auto self2 xs2 bench2 c)) =
           [Invoke (forward e) (prod_list (butlast xs2)) (last xs2)])"
proof -
  have r: "c (cache_key_of self1 xs1) = Some e"
    unfolding later using first by (rule run_calls_preserves)
  then have r2: "c (cache_key_of self2 xs2) = Some e" by (simp add: same)
  have u: "snd (forward_auto self2 xs2 bench2 c) = c"
  proof (cases "xs2 = [] \<or> last xs2 = 0")
    case True
    from forward_auto_bad_shape [OF True, of self2 bench2 c] show ?thesis by simp
  next
    case False
    with r2 show ?thesis by (simp add: forward_auto_hit)
  qed
  have nb: "\<forall>k. Bench k \<notin> set (fst (fst (forward_auto self2 xs2 bench2 c)))"
    using r2 by (simp add: forward_auto_no_bench_on_hit)
  have inv: "xs2 \<noteq> [] \<and> last xs2 \<noteq> 0 \<longrightarrow>
         fst (fst (forward_auto self2 xs2 bench2 c)) =
           [Invoke (forward e) (prod_list (butlast xs2)) (last xs2)]"
    using r2 by (simp add: forward_auto_hit)
  from r u nb inv show ?thesis by blast
qed


lemma example_forward_first:
  "snd (forward_auto example_self [1, 256] (\<lambda>k. Some (5::nat)) Map.empty)
     (cache_key_of example_self [1, 256]) = Some \<lparr>forward = gemm_A16fWnO16f_int32packing, time = 5\<rparr>"
  by (simp add: forward_auto_def warmup_def np_argmin_def cache_key_of_def example_self_def Let_def)

theorem signature_stability_witness:
  "(let c = run_calls (snd (forward_auto example_self [1, 256] (\<lambda>k. Some (5::nat)) Map.empty))
              [\<lparr>call_self = example_self, call_shape = [16, 256], call_bench = (\<lambda>k. Some 3)\<rparr>]
    in c (cache_key_of example_self [1, 256]) = Some \<lparr>forward = gemm_A16fWnO16f_int32packing, time = 5\<rparr>
     \<and> snd (forward_auto example_self [1, 256] (\<lambda>k. Some 1) c) = c
     \<and> (\<forall>k. Bench k \<notin> set (fst (fst (forward_auto example_self [1, 256] (\<lambda>k. Some 1) c))))
     \<and> fst (fst (forward_auto example_self [1, 256] (\<lambda>k. Some 1) c)) =
           [Invoke gemm_A16fWnO16f_int32packing 1 256])"
  using signature_stability [where ?bench2.0 = "(\<lambda>k. Some 1)"
      and mid = "[\<lparr>call_self = example_self, call_shape = [16, 256], call_bench = (\<lambda>k. Some 3)\<rparr>]",
      OF example_forward_first refl refl]
  by (simp add: Let_def)

lemma forward_auto_result:
  fixes c :: "('t::linorder) cache"
  assumes ok: "xs \<noteq> []" "last xs \<noteq> 0"
    and fa: "forward_auto self xs bench c = ((ev, r), c')"
  shows "(c' = c \<or> (\<exists>e. c' = c(cache_key_of self xs \<mapsto> e)))"
    and "\<forall>k rows cols. Invoke k rows cols \<in> set ev \<longrightarrow>
           rows = prod_list (butlast xs) \<and> cols = last xs
           \<and> (\<exists>e. c' (cache_key_of self xs) = Some e \<and> forward e = k)"
    and "\<not> isl r \<longrightarrow> (\<exists>k. Invoke k (prod_list (butlast xs)) (last xs) \<in> set ev)"
proof -
  let ?sg = "cache_key_of self xs"
  show "(c' = c \<or> (\<exists>e. c' = c(?sg \<mapsto> e)))"
    and "\<forall>k rows cols. Invoke k rows cols \<in> set ev \<longrightarrow>
           rows = prod_list (butlast xs) \<and> cols = last xs
           \<and> (\<exists>e. c' ?sg = Some e \<and> forward e = k)"
    and "\<not> isl r \<longrightarrow> (\<exists>k. Invoke k (prod_list (butlast xs)) (last xs) \<in> set ev)"
  proof (atomize (full), cases "c ?sg")
    case (Some e)
    from forward_auto_hit [where c = c and self = self and xs = xs and bench = bench and e = e,
        OF ok Some] fa
    show "(c' = c \<or> (\<exists>e. c' = c(?sg \<mapsto> e)))
      \<and> (\<forall>k rows cols. Invoke k rows cols \<in> set ev \<longrightarrow>
           rows = prod_list (butlast xs) \<and> cols = last xs
           \<and> (\<exists>e. c' ?sg = Some e \<and> forward e = k))
      \<and> (\<not> isl r \<longrightarrow> (\<exists>k. Invoke k (prod_list (butlast xs)) (last xs) \<in> set ev))"
      using Some by auto
  next
    case None
    obtain wev wr where w: "warmup self ?sg bench c = (wev, wr)" by force
    from warmup_events [of self ?sg bench c] w have wb: "set wev \<subseteq> range Bench" by simp
    show "(c' = c \<or> (\<exists>e. c' = c(?sg \<mapsto> e)))
      \<and> (\<forall>k rows cols. Invoke k rows cols \<in> set ev \<longrightarrow>
           rows = prod_list (butlast xs) \<and> cols = last xs
           \<and> (\<exists>e. c' ?sg = Some e \<and> forward e = k))
      \<and> (\<not> isl r \<longrightarrow> (\<exists>k. Invoke k (prod_list (butlast xs)) (last xs) \<in> set ev))"
    proof (cases wr)
      case (Inl err)
      with ok None w fa wb show ?thesis
        by (auto simp add: forward_auto_def Let_def)
    next
      case (Inr c1)
      with warmup_cache w obtain e1 where c1: "c1 = c(?sg \<mapsto> e1)" by blast
      with ok None w fa wb Inr show ?thesis
        by (auto simp add: forward_auto_def Let_def split: option.splits)
    qed
  qed
qed

lemma warmup_returns:
  fixes c :: "('t::linorder) cache"
  assumes ks: "kernels self = [gemm_A16fWnO16f_int32packing, gemv_A16fWnO16f_int32packing]
       \<or> kernels self = [gemm_A16fWnO16f_int32packing]"
    and bench: "\<forall>k. bench k = Some (lat k)"
  shows "\<exists>e. warmup self sg bench c =
           (map Bench (candidates (fst sg) (kernels self)), Inr (c(sg \<mapsto> e)))"
proof -
  let ?cands = "candidates (fst sg) (kernels self)"
  from candidates_prefix [OF ks, of "fst sg"]
  have ne: "?cands \<noteq> []" and le: "length ?cands \<le> length (kernels self)" by blast+
  from ne have "map lat ?cands \<noteq> []" by simp
  from np_argmin_props [OF this] obtain i where i: "i < length ?cands"
    and am: "np_argmin (map lat ?cands) = Inr i" by auto
  have "warmup self sg bench c =
      (map Bench ?cands, Inr (c(sg \<mapsto> \<lparr>forward = kernels self ! i, time = map lat ?cands ! i\<rparr>)))"
    using i le am by (simp add: warmup_def warmup_times_total [OF bench])
  then show ?thesis by blast
qed

lemma forward_auto_resolves:
  fixes c :: "('t::linorder) cache"
  assumes ks: "kernels self = [gemm_A16fWnO16f_int32packing, gemv_A16fWnO16f_int32packing]
       \<or> kernels self = [gemm_A16fWnO16f_int32packing]"
    and bench: "\<forall>k. bench k = Some (lat k)"
    and ok: "xs \<noteq> []" "last xs \<noteq> 0"
  shows "\<exists>pre e. forward_auto self xs bench c =
            ((pre @ [Invoke (forward e) (prod_list (butlast xs)) (last xs)],
              (case bias self of None \<Rightarrow> Inl (AttributeError ''bias'')
               | Some _ \<Rightarrow> Inr (butlast xs @ [nat (out_features self)]))),
             c(cache_key_of self xs \<mapsto> e))
          \<and> set pre \<subseteq> range Bench"
proof (cases "c (cache_key_of self xs)")
  case (Some e)
  then have "c(cache_key_of self xs \<mapsto> e) = c" by (simp add: fun_upd_idem)
  with forward_auto_hit [where c = c and self = self and xs = xs and bench = bench and e = e,
      OF ok Some]
  show ?thesis by (intro exI [of _ "[]"] exI [of _ e]) simp
next
  case None
  let ?sg = "cache_key_of self xs"
  let ?pre = "map Bench (candidates (fst ?sg) (kernels self))"
  from warmup_returns [OF ks bench, of ?sg c] obtain e
    where w: "warmup self ?sg bench c = (?pre, Inr (c(?sg \<mapsto> e)))" by blast
  have "forward_auto self xs bench c =
      ((?pre @ [Invoke (forward e) (prod_list (butlast xs)) (last xs)],
        (case bias self of None \<Rightarrow> Inl (AttributeError ''bias'')
         | Some _ \<Rightarrow> Inr (butlast xs @ [nat (out_features self)]))),
       c(?sg \<mapsto> e))"
    using ok None w by (simp add: forward_auto_def Let_def split: option.splits)
  moreover have "set ?pre \<subseteq> range Bench" by auto
  ultimately show ?thesis by blast
qed

lemma triton_init_signature:
  assumes "GemLiteLinearTriton_init nbits gs fin fout idt odt acc = (evs, Inr self)"
  shows "signature self = (fin, fout, nbits, gs)" "out_features self = fout"
  using assms
  by (auto simp add: GemLiteLinearTriton_init_def Let_def
      split: if_splits option.splits sum.splits prod.splits)

text \<open>
  C10, as stated, fails: inputs of shapes \<open>(2, 3, 5, 256)\<close> and \<open>(2, 15, 256)\<close> have the
  same effective batch of 30 rows and different leading-shape factorizations, and the
  two calls use one cache entry. The first call measures both kernels and records the
  winner under the key \<open>(2,) + signature\<close>; the second finds that entry, measures
  nothing, launches the recorded kernel and leaves the cache as it found it.
\<close>

theorem cache_key_batch_component_counterexample:
  "prod_list (butlast [2, 3, 5, 256 :: nat]) = prod_list (butlast [2, 15, 256])
   \<and> butlast [2, 3, 5, 256 :: nat] \<noteq> butlast [2, 15, 256]
   \<and> forward_auto example_self_packed [2, 3, 5, 256] (\<lambda>k. Some (5::nat)) Map.empty
        = (([Bench gemm_A16fWnO16f_int32packing, Bench gemv_A16fWnO16f_int32packing,
             Invoke gemm_A16fWnO16f_int32packing 30 256], Inr [2, 3, 5, 256]),
           example_shared_cache)
   \<and> forward_auto example_self_packed [2, 15, 256] (\<lambda>k. Some (5::nat)) example_shared_cache
        = (([Invoke gemm_A16fWnO16f_int32packing 30 256], Inr [2, 15, 256]),
           example_shared_cache)
   \<and> cache_key_of example_self_packed [2, 3, 5, 256]
        = cache_key_of example_self_packed [2, 15, 256]"
  by (simp add: forward_auto_def warmup_def np_argmin_def cache_key_of_def example_self_def
      example_self_packed_def example_shared_cache_def candidates_def Let_def)

text \<open>
  C10, amended. On an operator built by \<open>__init__\<close>, packed or not, with every
  measurement returning, a forward call on an input of more than two dimensions, of
  shape \<open>(b, s, ..., f)\<close> with \<open>f\<close> nonzero, ends with one kernel launch on the flattened
  view of \<open>b * s * ...\<close> rows and \<open>f\<close> columns, preceded by measurements only; the kernel
  is the one of the entry that the call leaves under the key \<open>(b,) + signature\<close>, whose
  batch component is \<open>b = x.shape[0]\<close>, and no other key is written. The call returns
  the output shape once \<open>pack\<close> has assigned \<open>self.bias\<close>. Every later call on an input
  with the same first dimension \<open>b\<close>, whatever the rest of its shape and so its effective
  batch, launches that entry's kernel, measures nothing and leaves the cache unchanged:
  the calls share one entry. Two inputs of more than two dimensions have the same key
  exactly when their first dimensions are equal: calls of equal effective batch use
  different entries when their first dimensions differ, and only then.
\<close>

theorem cache_key_batch_component:
  fixes c :: "('t::linorder) cache"
  assumes init: "GemLiteLinearTriton_init nbits gs fin fout idt odt acc = (evs, Inr self0)"
    and packed: "self = self0\<lparr>W_q := wq, scales := sc, zeros := zs, bias := bs\<rparr>"
    and bench: "\<forall>k. bench k = Some (lat k)"
    and f: "f \<noteq> 0"
  shows "\<exists>pre e.
      forward_auto self (b # s # ds @ [f]) bench c =
        ((pre @ [Invoke (forward e) (b * s * prod_list ds) f],
          (case bs of None \<Rightarrow> Inl (AttributeError ''bias'')
           | Some _ \<Rightarrow> Inr (b # s # ds @ [nat fout]))),
         c((b, fin, fout, nbits, gs) \<mapsto> e))
      \<and> set pre \<subseteq> range Bench
      \<and> (\<forall>s' ds' f' bench'. f' \<noteq> 0 \<longrightarrow>
            fst (fst (forward_auto self (b # s' # ds' @ [f']) bench'
                        (c((b, fin, fout, nbits, gs) \<mapsto> e))))
              = [Invoke (forward e) (b * s' * prod_list ds') f']
            \<and> snd (forward_auto self (b # s' # ds' @ [f']) bench'
                        (c((b, fin, fout, nbits, gs) \<mapsto> e)))
              = c((b, fin, fout, nbits, gs) \<mapsto> e))
      \<and> (\<forall>b' s' ds' f'.
            (cache_key_of self (b # s # ds @ [f]) = cache_key_of self (b' # s' # ds' @ [f']))
              = (b = b'))"
proof -
  let ?xs = "b # s # ds @ [f]"
  let ?k = "(b, fin, fout, nbits, gs)"
  have ks: "kernels self = [gemm_A16fWnO16f_int32packing, gemv_A16fWnO16f_int32packing]
       \<or> kernels self = [gemm_A16fWnO16f_int32packing]"
    using triton_init_kernels [OF init] by (simp add: packed)
  have sg: "signature self = (fin, fout, nbits, gs)" and outf: "out_features self = fout"
    and bi: "bias self = bs"
    using triton_init_signature [OF init] by (simp_all add: packed)
  have ok: "?xs \<noteq> []" "last ?xs \<noteq> 0" using f by simp_all
  have key: "cache_key_of self ?xs = ?k" by (simp add: cache_key_of_def sg)
  have rows: "prod_list (butlast ?xs) = b * s * prod_list ds" by (simp add: butlast_append)
  have lst: "last ?xs = f" by simp
  have bl: "butlast ?xs @ [nat fout] = b # s # ds @ [nat fout]" by (simp add: butlast_append)
  from forward_auto_resolves [OF ks bench ok, of c] obtain pre e
    where fa: "forward_auto self ?xs bench c =
        ((pre @ [Invoke (forward e) (b * s * prod_list ds) f],
          (case bs of None \<Rightarrow> Inl (AttributeError ''bias'')
           | Some _ \<Rightarrow> Inr (b # s # ds @ [nat fout]))),
         c(?k \<mapsto> e))"
      and pre: "set pre \<subseteq> range Bench"
    unfolding key rows lst bi outf bl by blast
  have share: "\<forall>s' ds' f' bench'. f' \<noteq> 0 \<longrightarrow>
            fst (fst (forward_auto self (b # s' # ds' @ [f']) bench' (c(?k \<mapsto> e))))
              = [Invoke (forward e) (b * s' * prod_list ds') f']
            \<and> snd (forward_auto self (b # s' # ds' @ [f']) bench' (c(?k \<mapsto> e)))
              = c(?k \<mapsto> e)"
  proof (intro allI impI)
    fix s' :: nat and ds' :: "nat list" and f' :: nat and bench' :: "triton_kernel \<Rightarrow> 't option"
    assume f': "f' \<noteq> 0"
    let ?ys = "b # s' # ds' @ [f']"
    let ?c = "c(?k \<mapsto> e)"
    have ok': "?ys \<noteq> []" "last ?ys \<noteq> 0" using f' by simp_all
    have hit: "?c (cache_key_of self ?ys) = Some e" by (simp add: cache_key_of_def sg)
    from forward_auto_hit [where c = ?c and self = self and xs = ?ys and bench = bench' and e = e,
        OF ok' hit]
    show "fst (fst (forward_auto self ?ys bench' ?c)) = [Invoke (forward e) (b * s' * prod_list ds') f']
        \<and> snd (forward_auto self ?ys bench' ?c) = ?c"
      by (simp add: butlast_append)
  qed
  have keys: "\<forall>b' s' ds' f'.
            (cache_key_of self (b # s # ds @ [f]) = cache_key_of self (b' # s' # ds' @ [f']))
              = (b = b')"
    by (simp add: cache_key_of_def)
  from fa pre share keys show ?thesis by blast
qed

lemma example_self_packed_eq:
  "example_self_packed =
     example_self\<lparr>W_q := OnMeta 32 256, scales := OnMeta 2 256, zeros := OnMeta 2 256,
                   bias := Some None\<rparr>"
  by (simp add: example_self_packed_def example_self_def)

text \<open>
  The witness of C10: the packed example operator on an input of shape \<open>(2, 3, 5, 256)\<close>
  launches a kernel on 30 rows and leaves an entry under batch component 2; a call on
  \<open>(2, 7, 256)\<close>, of 14 rows, reuses it; \<open>(3, 2, 5, 256)\<close>, of 30 rows, has another key.
\<close>

theorem cache_key_batch_component_witness:
  "\<exists>pre e.
      forward_auto example_self_packed [2, 3, 5, 256] (\<lambda>k. Some (5::nat)) Map.empty =
        ((pre @ [Invoke (forward e) 30 256], Inr [2, 3, 5, 256]),
         [(2, 256, 256, 4, Some 128) \<mapsto> e])
      \<and> set pre \<subseteq> range Bench
      \<and> fst (fst (forward_auto example_self_packed [2, 7, 256] (\<lambda>k. Some (1::nat))
                    [(2, 256, 256, 4, Some 128) \<mapsto> e]))
          = [Invoke (forward e) 14 256]
      \<and> snd (forward_auto example_self_packed [2, 7, 256] (\<lambda>k. Some (1::nat))
                [(2, 256, 256, 4, Some 128) \<mapsto> e])
          = [(2, 256, 256, 4, Some 128) \<mapsto> e]
      \<and> cache_key_of example_self_packed [2, 3, 5, 256]
          \<noteq> cache_key_of example_self_packed [3, 2, 5, 256]"
proof -
  have b: "\<forall>k. (\<lambda>k. Some (5::nat)) k = Some ((\<lambda>k. 5) k)" by simp
  have f: "(256::nat) \<noteq> 0" by simp
  from cache_key_batch_component [OF example_self_init example_self_packed_eq b f,
      of 2 3 "[5]" Map.empty]
  obtain pre e where
    a: "forward_auto example_self_packed [2, 3, 5, 256] (\<lambda>k. Some (5::nat)) Map.empty =
        ((pre @ [Invoke (forward e) 30 256], Inr [2, 3, 5, 256]),
         [(2, 256, 256, 4, Some 128) \<mapsto> e])"
    and p: "set pre \<subseteq> range Bench"
    and sh: "\<forall>s' ds' f' bench'. f' \<noteq> 0 \<longrightarrow>
            fst (fst (forward_auto example_self_packed (2 # s' # ds' @ [f']) bench'
                        [(2, 256, 256, 4, Some 128) \<mapsto> e]))
              = [Invoke (forward e) (2 * s' * prod_list ds') f']
            \<and> snd (forward_auto example_self_packed (2 # s' # ds' @ [f']) bench'
                        [(2, 256, 256, 4, Some 128) \<mapsto> e])
              = [(2, 256, 256, 4, Some 128) \<mapsto> e]"
    and ky: "\<forall>b' s' ds' f'.
            (cache_key_of example_self_packed (2 # 3 # [5] @ [256])
              = cache_key_of example_self_packed (b' # s' # ds' @ [f'])) = (2 = b')"
    by auto
  from sh [rule_format, where s' = 7 and ds' = "[]" and f' = 256 and bench' = "\<lambda>k. Some (1::nat)"]
  have s2: "fst (fst (forward_auto example_self_packed [2, 7, 256] (\<lambda>k. Some (1::nat))
                    [(2, 256, 256, 4, Some 128) \<mapsto> e]))
          = [Invoke (forward e) 14 256]"
    "snd (forward_auto example_self_packed [2, 7, 256] (\<lambda>k. Some (1::nat))
                [(2, 256, 256, 4, Some 128) \<mapsto> e])
          = [(2, 256, 256, 4, Some 128) \<mapsto> e]"
    by simp_all
  from ky [rule_format, of 3 2 "[5]" 256]
  have k2: "cache_key_of example_self_packed [2, 3, 5, 256]
      \<noteq> cache_key_of example_self_packed [3, 2, 5, 256]"
    by simp
  from a p s2 k2 show ?thesis by blast
qed

section \<open>Layout A: the attribute read by unpack\<close>


lemma fp16_table_dom: "GEMLITE_GEMV_FP16_INPUT_FP16_OUTPUT n = Some k \<Longrightarrow> n \<in> {2, 4, 8}"
  by (simp add: GEMLITE_GEMV_FP16_INPUT_FP16_OUTPUT_def split: if_splits)

lemma int8_table_dom: "GEMLITE_GEMV_INT8_INPUT_INT32_OUTPUT n = Some k \<Longrightarrow> n \<in> {2, 4, 8}"
  by (simp add: GEMLITE_GEMV_INT8_INPUT_INT32_OUTPUT_def split: if_splits)


lemma cuda_init_fp16_keeps:
  assumes "cuda_init_fp16 gs s = Inr s'" "cuda_ready s"
  shows "cuda_ready s' \<and> cuda_linear.W_nbits s' = cuda_linear.W_nbits s
     \<and> cuda_linear.W_q_packed s' = cuda_linear.W_q_packed s"
proof (cases "cuda_linear.input_dtype s = FP16 \<and> cuda_linear.output_dtype s = FP16")
  case False
  with assms show ?thesis by (auto simp add: cuda_init_fp16_def)
next
  case True
  with assms(1) obtain k g where k: "GEMLITE_GEMV_FP16_INPUT_FP16_OUTPUT (cuda_linear.W_nbits s) = Some k"
    and g: "gs = Some g" "g \<noteq> 0"
    by (auto simp add: cuda_init_fp16_def split: option.splits if_splits)
  from fp16_table_dom [OF k] have n: "cuda_linear.W_nbits s \<in> {2, 4, 8}" .
  from assms True k g n show ?thesis
    by (cases "(cuda_linear.in_features s * cuda_linear.out_features s) mod g = 0")
      (auto simp add: cuda_init_fp16_def cuda_ready_def)
qed

lemma cuda_init_int8_keeps:
  assumes "cuda_init_int8 gs s = Inr s'" "cuda_ready s"
  shows "cuda_ready s' \<and> cuda_linear.W_nbits s' = cuda_linear.W_nbits s
     \<and> cuda_linear.W_q_packed s' = cuda_linear.W_q_packed s"
proof (cases "cuda_linear.input_dtype s = INT8 \<and> cuda_linear.output_dtype s = INT32")
  case False
  with assms show ?thesis by (auto simp add: cuda_init_int8_def)
next
  case True
  with assms(1) obtain k where k: "GEMLITE_GEMV_INT8_INPUT_INT32_OUTPUT (cuda_linear.W_nbits s) = Some k"
    by (auto simp add: cuda_init_int8_def split: option.splits if_splits)
  from int8_table_dom [OF k] have n: "cuda_linear.W_nbits s \<in> {2, 4, 8}" .
  from assms True k n show ?thesis
    by (cases "gs = Some (cuda_linear.in_features s * cuda_linear.out_features s)")
      (auto simp add: cuda_init_int8_def cuda_ready_def)
qed

lemma cuda_init_fields_of:
  assumes "GemLiteLinearCUDA_init nbits gs fin fout idt odt = Inr (s :: 'f cuda_linear)"
  shows "cuda_linear.W_nbits s \<in> {2, 4, 8}" "cuda_linear.W_q_packed s = None"
    "cuda_linear.W_nbits s = nbits"
    "cuda_linear.has_scales s \<noteq> None" "cuda_linear.zero_is_tensor s \<noteq> None"
proof -
  let ?s0 = "cuda_init_fields nbits gs fin fout idt odt :: 'f cuda_linear"
  have r0: "cuda_ready ?s0" by (simp add: cuda_ready_def cuda_init_fields_def)
  from assms obtain s1 where s1: "cuda_init_fp16 gs ?s0 = Inr s1"
    by (auto simp add: GemLiteLinearCUDA_init_def split: sum.splits)
  with assms obtain s2 where s2: "cuda_init_int8 gs s1 = Inr s2"
    by (auto simp add: GemLiteLinearCUDA_init_def split: sum.splits)
  from assms s1 s2 have fr: "cuda_linear.forward_raw s2 \<noteq> None" and eq: "s = s2"
    by (auto simp add: GemLiteLinearCUDA_init_def split: if_splits)
  from cuda_init_fp16_keeps [OF s1 r0] have k1: "cuda_ready s1"
    "cuda_linear.W_nbits s1 = nbits" "cuda_linear.W_q_packed s1 = None"
    by (simp_all add: cuda_init_fields_def)
  from cuda_init_int8_keeps [OF s2 k1(1)] k1 have k2: "cuda_ready s2"
    "cuda_linear.W_nbits s2 = nbits" "cuda_linear.W_q_packed s2 = None"
    by simp_all
  from k2 fr eq show "cuda_linear.W_nbits s \<in> {2, 4, 8}" "cuda_linear.W_q_packed s = None"
    "cuda_linear.W_nbits s = nbits"
    "cuda_linear.has_scales s \<noteq> None" "cuda_linear.zero_is_tensor s \<noteq> None"
    by (simp_all add: cuda_ready_def)
qed



lemma cuda_pack_result:
  assumes "GemLiteLinearCUDA_pack s Wq sc zs b = Inr s'"
  shows "\<exists>p sc' zs'. cuda_pack_words (cuda_linear.W_nbits s) Wq = Inr p
     \<and> s' = s\<lparr> cuda_linear.W_q := Some p, cuda_linear.scales := Some sc',
                cuda_linear.zeros := Some zs', cuda_linear.bias := Some b \<rparr>"
proof -
  from assms obtain p where p: "cuda_pack_words (cuda_linear.W_nbits s) Wq = Inr p"
    by (cases "cuda_pack_words (cuda_linear.W_nbits s) Wq")
      (simp_all add: GemLiteLinearCUDA_pack_def)
  from assms p obtain hs where hs: "cuda_linear.has_scales s = Some hs"
    by (cases "cuda_linear.has_scales s") (simp_all add: GemLiteLinearCUDA_pack_def)
  from assms p hs obtain zt where zt: "cuda_linear.zero_is_tensor s = Some zt"
    by (cases "cuda_linear.zero_is_tensor s")
      (simp_all add: GemLiteLinearCUDA_pack_def split: if_splits)
  from assms show ?thesis
    unfolding GemLiteLinearCUDA_pack_def p hs zt
    by (simp add: Let_def split: if_splits sum.splits) blast+
qed

lemma cuda_pack_fields:
  assumes "GemLiteLinearCUDA_pack s Wq sc zs b = Inr s'"
  shows "cuda_linear.W_nbits s' = cuda_linear.W_nbits s"
    "cuda_linear.W_q_packed s' = cuda_linear.W_q_packed s"
  using cuda_pack_result [OF assms] by auto

lemma example_cuda_Inr: "example_cuda = Inr (projr example_cuda)"
  by code_simp

lemma example_cuda_packed_Inr: "example_cuda_packed = Inr (projr example_cuda_packed)"
  by code_simp

text \<open>
  C9. \<open>GemLiteLinearCUDA.unpack\<close> never reads its argument \<open>W_q_packed\<close>: its result is
  determined by the attribute \<open>self.W_q_packed\<close> (and \<open>self.W_nbits\<close>). \<open>pack\<close> stores
  the packed words in \<open>self.W_q\<close> and never assigns \<open>self.W_q_packed\<close>, so on an operator
  on which only \<open>__init__\<close> and \<open>pack\<close> have run, \<open>unpack\<close> raises the missing-attribute
  error for every argument.
\<close>

theorem cuda_unpack_ignores_argument:
  "(cuda_linear.W_q_packed self = cuda_linear.W_q_packed self'
      \<and> cuda_linear.W_nbits self = cuda_linear.W_nbits self' \<longrightarrow>
      GemLiteLinearCUDA_unpack self a1 = GemLiteLinearCUDA_unpack self' a2)
   \<and> (GemLiteLinearCUDA_init nbits gs fin fout idt odt = Inr s0
      \<and> GemLiteLinearCUDA_pack s0 Wq sc zs b = Inr s1 \<longrightarrow>
      GemLiteLinearCUDA_unpack s1 a = Inl (AttributeError ''W_q_packed''))"
proof (intro conjI impI)
  assume "cuda_linear.W_q_packed self = cuda_linear.W_q_packed self'
      \<and> cuda_linear.W_nbits self = cuda_linear.W_nbits self'"
  then have p: "cuda_linear.W_q_packed self = cuda_linear.W_q_packed self'"
    and n: "cuda_linear.W_nbits self = cuda_linear.W_nbits self'" by simp_all
  show "GemLiteLinearCUDA_unpack self a1 = GemLiteLinearCUDA_unpack self' a2"
    unfolding GemLiteLinearCUDA_unpack_def p n by (rule refl)
next
  assume h: "GemLiteLinearCUDA_init nbits gs fin fout idt odt = Inr s0
      \<and> GemLiteLinearCUDA_pack s0 Wq sc zs b = Inr s1"
  then have i: "GemLiteLinearCUDA_init nbits gs fin fout idt odt = Inr s0"
    and pk: "GemLiteLinearCUDA_pack s0 Wq sc zs b = Inr s1" by simp_all
  from cuda_init_fields_of(1,2) [OF i] cuda_pack_fields [OF pk]
  have "cuda_linear.W_nbits s1 \<noteq> 0" "cuda_linear.W_q_packed s1 = None" by auto
  then show "GemLiteLinearCUDA_unpack s1 a = Inl (AttributeError ''W_q_packed'')"
    by (simp add: GemLiteLinearCUDA_unpack_def)
qed




theorem cuda_unpack_ignores_argument_witness:
  "GemLiteLinearCUDA_unpack (projr example_cuda_packed) (the (cuda_linear.W_q (projr example_cuda_packed)))
     = GemLiteLinearCUDA_unpack (projr example_cuda_packed) \<lparr>nrows = 0, ncols = 0, cells = []\<rparr>
   \<and> GemLiteLinearCUDA_unpack (projr example_cuda_packed)
        (the (cuda_linear.W_q (projr example_cuda_packed))) = Inl (AttributeError ''W_q_packed'')"
proof -
  have i: "GemLiteLinearCUDA_init 8 (Some 128) 128 1 FP16 FP16 = Inr (projr example_cuda)"
    using example_cuda_Inr by (simp add: example_cuda_def)
  have p: "GemLiteLinearCUDA_pack (projr example_cuda) example_codes (Some (Scalar ())) (Scalar ()) None
      = Inr (projr example_cuda_packed)"
    using example_cuda_packed_Inr by (simp add: example_cuda_packed_def)
  from cuda_unpack_ignores_argument [of "projr example_cuda_packed" "projr example_cuda_packed"
      "the (cuda_linear.W_q (projr example_cuda_packed))" "\<lparr>nrows = 0, ncols = 0, cells = []\<rparr>"
      8 "Some 128" 128 1 FP16 FP16 "projr example_cuda" example_codes "Some (Scalar ())" "Scalar ()"
      None "projr example_cuda_packed" "the (cuda_linear.W_q (projr example_cuda_packed))"] i p
  show ?thesis by blast
qed


section \<open>Lists, tables and bits\<close>



lemma concat_uniform:
  assumes "\<forall>row \<in> set xss. length row = w"
  shows "length (concat xss) = length xss * w"
    and "i < length xss \<Longrightarrow> j < w \<Longrightarrow> concat xss ! (i * w + j) = xss ! i ! j"
  using assms
proof (induction xss arbitrary: i)
  case Nil
  { case 1 show ?case by simp }
  { case 2 then show ?case by simp }
next
  case (Cons a xss)
  { case 1 with Cons.IH(1) show ?case by simp }
  { case 2
    show ?case
    proof (cases i)
      case 0
      with 2 show ?thesis by (simp add: nth_append)
    next
      case (Suc i')
      with 2 Cons.IH(2) [of i'] show ?thesis by (simp add: nth_append)
    qed }
qed

lemma length_tabulate2 [simp]: "length (tabulate2 r w f) = r * w"
  unfolding tabulate2_def by (subst concat_uniform(1) [where w = w]) auto

lemma nth_tabulate2: "i < r \<Longrightarrow> j < w \<Longrightarrow> tabulate2 r w f ! (i * w + j) = f i j"
  unfolding tabulate2_def by (subst concat_uniform(2) [where w = w]) auto


lemma bit_big_or: "bit (big_or f m) b \<longleftrightarrow> (\<exists>i<m. bit (f i) b)"
  by (induction m) (auto simp add: bit_or_iff less_Suc_eq)


section \<open>Packing: shared lemmas\<close>









lemma fits_bit:
  fixes c :: "8 word"
  assumes "unat c < 2 ^ n" "bit c m"
  shows "m < n"
proof (rule ccontr)
  assume "\<not> m < n"
  then have "n \<le> m" by simp
  then have "(2::nat) ^ n \<le> 2 ^ m" by (intro power_increasing) simp_all
  with assms(1) have "unat c < 2 ^ m" by (rule less_le_trans)
  then have "unat c div 2 ^ m = 0" by simp
  then have "\<not> bit (unat c) m" by (simp add: bit_iff_odd)
  with assms(2) show False by (simp add: bit_unsigned_iff)
qed

lemma mask_word_of_int: "0 \<le> n \<Longrightarrow> (word_of_int (2 ^ nat n - 1) :: 32 word) = mask (nat n)"
  by (simp add: mask_eq_exp_minus_1)

lemma field_bound:
  fixes k n i :: nat
  assumes "k * n \<le> 32" "i < k"
  shows "(i + 1) * n \<le> 32"
proof -
  from assms(2) have "i + 1 \<le> k" by simp
  then have "(i + 1) * n \<le> k * n" by (rule mult_le_mono1)
  with assms(1) show ?thesis by (rule le_trans [rotated])
qed


lemma bit_packed_field:
  fixes c :: "nat \<Rightarrow> 8 word" and s :: "nat \<Rightarrow> nat"
  assumes fit: "\<forall>j<k. unat (c j) < 2 ^ n" and i: "i < k"
    and bound: "\<forall>j<k. s j + n \<le> 32"
    and disj: "\<forall>j<k. j \<noteq> i \<longrightarrow> s j + n \<le> s i \<or> s i + n \<le> s j"
    and m: "m < n"
  shows "bit (big_or (\<lambda>j. push_bit (s j) (ucast (c j))) k) (s i + m) \<longleftrightarrow> bit (c i) m"
proof -
  have lt32: "s i + m < 32" using bound i m by fastforce
  have "bit (big_or (\<lambda>j. push_bit (s j) (ucast (c j) :: 32 word)) k) (s i + m)
      \<longleftrightarrow> (\<exists>j<k. s j \<le> s i + m \<and> bit (c j) (s i + m - s j))"
    using lt32 by (auto simp add: bit_big_or bit_simps dest: bit_imp_le_length)
  also have "\<dots> \<longleftrightarrow> bit (c i) m"
  proof
    assume "\<exists>j<k. s j \<le> s i + m \<and> bit (c j) (s i + m - s j)"
    then obtain j where j: "j < k" "s j \<le> s i + m" "bit (c j) (s i + m - s j)" by blast
    from fit j(1) fits_bit [OF _ j(3)] have f: "s i + m - s j < n" by simp
    have "j = i"
    proof (rule ccontr)
      assume "j \<noteq> i"
      with disj j(1) have "s j + n \<le> s i \<or> s i + n \<le> s j" by simp
      with f j(2) m show False by linarith
    qed
    with j(3) show "bit (c i) m" by simp
  next
    assume "bit (c i) m"
    with i show "\<exists>j<k. s j \<le> s i + m \<and> bit (c j) (s i + m - s j)"
      by (intro exI [of _ i]) simp
  qed
  finally show ?thesis .
qed

lemma extract_field:
  fixes c :: "nat \<Rightarrow> 8 word" and s :: "nat \<Rightarrow> nat"
  assumes fit: "\<forall>j<k. unat (c j) < 2 ^ n" and i: "i < k"
    and bound: "\<forall>j<k. s j + n \<le> 32"
    and disj: "\<forall>j<k. j \<noteq> i \<longrightarrow> s j + n \<le> s i \<or> s i + n \<le> s j"
  shows "ucast (drop_bit (s i) (big_or (\<lambda>j. push_bit (s j) (ucast (c j))) k) AND mask n) = c i"
    and "ucast (signed_drop_bit (s i) (big_or (\<lambda>j. push_bit (s j) (ucast (c j))) k) AND mask n) = c i"
proof -
  let ?w = "big_or (\<lambda>j. push_bit (s j) (ucast (c j) :: 32 word)) k"
  have si: "s i + n \<le> 32" using bound i by simp
  show "ucast (drop_bit (s i) ?w AND mask n) = c i"
  proof (rule bit_word_eqI)
    fix m assume m8: "m < LENGTH(8)"
    show "bit (ucast (drop_bit (s i) ?w AND mask n) :: 8 word) m \<longleftrightarrow> bit (c i) m"
    proof (cases "m < n")
      case False
      with fit i fits_bit [of "c i" n m] show ?thesis by (auto simp add: bit_simps)
    next
      case True
      have "bit (ucast (drop_bit (s i) ?w AND mask n) :: 8 word) m \<longleftrightarrow> bit ?w (s i + m)"
        using m8 True by (simp add: bit_simps)
      also have "\<dots> \<longleftrightarrow> bit (c i) m"
        by (rule bit_packed_field [OF fit i bound disj True])
      finally show ?thesis .
    qed
  qed
  show "ucast (signed_drop_bit (s i) ?w AND mask n) = c i"
  proof (rule bit_word_eqI)
    fix m assume m8: "m < LENGTH(8)"
    show "bit (ucast (signed_drop_bit (s i) ?w AND mask n) :: 8 word) m \<longleftrightarrow> bit (c i) m"
    proof (cases "m < n")
      case False
      with fit i fits_bit [of "c i" n m] show ?thesis by (auto simp add: bit_simps)
    next
      case True
      have nots: "\<not> (32 - s i \<le> m)" using True si by simp
      have "bit (ucast (signed_drop_bit (s i) ?w AND mask n) :: 8 word) m \<longleftrightarrow> bit ?w (s i + m)"
        using m8 True nots by (simp add: bit_simps bit_signed_drop_bit_iff)
      also have "\<dots> \<longleftrightarrow> bit (c i) m"
        by (rule bit_packed_field [OF fit i bound disj True])
      finally show ?thesis .
    qed
  qed
qed


lemma fields_B:
  fixes k n :: nat
  assumes kn: "k * n \<le> 32" and i: "i < k"
  shows "\<forall>j<k. n * j + n \<le> 32"
    and "\<forall>j<k. j \<noteq> i \<longrightarrow> n * j + n \<le> n * i \<or> n * i + n \<le> n * j"
proof -
  show "\<forall>j<k. n * j + n \<le> 32"
  proof (intro allI impI)
    fix j assume "j < k"
    with kn have "(j + 1) * n \<le> 32" by (rule field_bound)
    then show "n * j + n \<le> 32" by (simp add: algebra_simps)
  qed
  show "\<forall>j<k. j \<noteq> i \<longrightarrow> n * j + n \<le> n * i \<or> n * i + n \<le> n * j"
  proof (intro allI impI)
    fix j assume j: "j < k" "j \<noteq> i"
    from j(2) consider "j < i" | "i < j" by linarith
    then show "n * j + n \<le> n * i \<or> n * i + n \<le> n * j"
    proof cases
      case 1
      then have "j + 1 \<le> i" by simp
      then have "n * (j + 1) \<le> n * i" by (rule mult_le_mono2)
      then show ?thesis by (simp add: algebra_simps)
    next
      case 2
      then have "i + 1 \<le> j" by simp
      then have "n * (i + 1) \<le> n * j" by (rule mult_le_mono2)
      then show ?thesis by (simp add: algebra_simps)
    qed
  qed
qed


section \<open>Layout A: packing\<close>


























lemma big_or_cong:
  assumes "\<And>i. i < m \<Longrightarrow> f i = g i"
  shows "big_or f m = big_or g m"
  using assms by (induction m) simp_all

lemma index_in_matrix:
  fixes r c R C :: nat
  assumes "r < R" "c < C"
  shows "r * C + c < R * C"
proof -
  have "r * C + c < Suc r * C" using assms(2) by simp
  also have "\<dots> \<le> R * C" using assms(1) by (intro mult_le_mono1) simp
  finally show ?thesis .
qed


lemma example_cuda_flags:
  "cuda_linear.has_scales (projr example_cuda) = Some True"
  "cuda_linear.zero_is_tensor (projr example_cuda) = Some True"
  by code_simp+

lemma example_codes_shape:
  "nrows example_codes = 1" "ncols example_codes = 128" "wf_matrix example_codes"
  "length (cells example_codes) = 128" "cells example_codes \<noteq> []"
  by (simp_all add: example_codes_def wf_matrix_def)

section \<open>Layout A: the packed words\<close>








section \<open>Layout B: packing\<close>

lemma big_or_Suc_shift: "big_or f (Suc m) = f 0 OR big_or (\<lambda>j. f (Suc j)) m"
  by (induction m) (simp_all add: ac_simps)

lemma rows_nth:
  assumes "wf_matrix m" "r < nrows m"
  shows "length (rows m ! r) = ncols m"
    and "c < ncols m \<Longrightarrow> rows m ! r ! c = cells m ! (r * ncols m + c)"
proof -
  have e: "rows m ! r = take (ncols m) (drop (r * ncols m) (cells m))"
    using assms(2) by (simp add: rows_def)
  have "Suc r * ncols m \<le> nrows m * ncols m" using assms(2) by (intro mult_le_mono1) simp
  then have l: "r * ncols m + ncols m \<le> length (cells m)"
    using assms(1) by (simp add: wf_matrix_def)
  then show "length (rows m ! r) = ncols m" unfolding e by simp
  assume "c < ncols m"
  with l show "rows m ! r ! c = cells m ! (r * ncols m + c)" unfolding e by simp
qed

lemma pack_inner_run:
  assumes "i + m \<le> length Wt" "length acc = w" "\<forall>r<length Wt. length (Wt ! r) = w"
  shows "pack_inner n Wt [i..<i + m] (shift, acc) =
     Inr (shift + m * n,
          map (\<lambda>c. acc ! c OR big_or (\<lambda>j. push_bit (shift + j * n) (Wt ! (i + j) ! c)) m) [0..<w])"
  using assms
proof (induction m arbitrary: i shift acc)
  case 0
  then have "map (\<lambda>c. acc ! c) [0..<w] = acc" using map_nth [of acc] by simp
  then show ?case by simp
next
  case (Suc m)
  let ?acc = "map2 (OR) acc (map (push_bit shift) (Wt ! i))"
  from Suc.prems have i: "i < length Wt" and li: "length (Wt ! i) = w" by simp_all
  have u: "[i..<i + Suc m] = i # [Suc i..<Suc i + m]" by (simp add: upt_conv_Cons)
  have la: "length ?acc = w" using Suc.prems(2) li by simp
  have ih: "pack_inner n Wt [Suc i..<Suc i + m] (shift + n, ?acc) =
     Inr (shift + n + m * n,
          map (\<lambda>c. ?acc ! c OR big_or (\<lambda>j. push_bit (shift + n + j * n) (Wt ! (Suc i + j) ! c)) m) [0..<w])"
    using Suc.prems by (intro Suc.IH [OF _ la]) simp_all
  have "map (\<lambda>c. ?acc ! c OR big_or (\<lambda>j. push_bit (shift + n + j * n) (Wt ! (Suc i + j) ! c)) m) [0..<w]
      = map (\<lambda>c. acc ! c OR big_or (\<lambda>j. push_bit (shift + j * n) (Wt ! (i + j) ! c)) (Suc m)) [0..<w]"
  proof (rule map_cong [OF refl])
    fix c assume "c \<in> set [0..<w]"
    then have c: "c < w" by simp
    have a: "?acc ! c = acc ! c OR push_bit shift (Wt ! i ! c)"
      using c Suc.prems(2) li by simp
    show "?acc ! c OR big_or (\<lambda>j. push_bit (shift + n + j * n) (Wt ! (Suc i + j) ! c)) m
        = acc ! c OR big_or (\<lambda>j. push_bit (shift + j * n) (Wt ! (i + j) ! c)) (Suc m)"
      unfolding a big_or_Suc_shift [of "\<lambda>j. push_bit (shift + j * n) (Wt ! (i + j) ! c)" m]
      by (simp add: ac_simps)
  qed
  with ih show ?case unfolding u using i by (simp add: ac_simps)
qed

lemma pack_while_run:
  assumes "length Wq - row = d" "i + d * step \<le> length Wt"
    "\<forall>r<length Wq. length (Wq ! r) = w" "\<forall>r<length Wt. length (Wt ! r) = w"
  shows "pack_while n step Wt i row Wq =
     Inr (map (\<lambda>r. if r < row then Wq ! r
                    else map (\<lambda>c. Wq ! r ! c OR
                                big_or (\<lambda>j. push_bit (j * n) (Wt ! (i + (r - row) * step + j) ! c)) step)
                           [0..<w]) [0..<length Wq])"
  using assms
proof (induction d arbitrary: i row Wq)
  case 0
  then have le: "length Wq \<le> row" by simp
  then have "map (\<lambda>r. if r < row then Wq ! r
                    else map (\<lambda>c. Wq ! r ! c OR
                                big_or (\<lambda>j. push_bit (j * n) (Wt ! (i + (r - row) * step + j) ! c)) step)
                           [0..<w]) [0..<length Wq] = map (\<lambda>r. Wq ! r) [0..<length Wq]"
    by (intro map_cong) auto
  also have "\<dots> = Wq" by (simp add: map_nth)
  finally show ?case using le by (subst pack_while.simps) simp
next
  case (Suc d)
  then have row: "row < length Wq" by simp
  from Suc.prems(2) have b: "i + step \<le> length Wt" by simp
  let ?r0 = "map (\<lambda>c. Wq ! row ! c OR big_or (\<lambda>j. push_bit (0 + j * n) (Wt ! (i + j) ! c)) step) [0..<w]"
  have inner: "pack_inner n Wt [i..<i + step] (0, Wq ! row) = Inr (0 + step * n, ?r0)"
    using Suc.prems(3,4) row by (intro pack_inner_run [OF b]) simp_all
  let ?Wq = "Wq[row := ?r0]"
  have l: "length ?Wq - (row + 1) = d" using Suc.prems(1) by simp
  have b': "i + step + d * step \<le> length Wt" using Suc.prems(2) by (simp add: ac_simps)
  have w': "\<forall>r<length ?Wq. length (?Wq ! r) = w"
  proof (intro allI impI)
    fix r assume "r < length ?Wq"
    then have r: "r < length Wq" by simp
    show "length (?Wq ! r) = w"
    proof (cases "r = row")
      case True
      with r show ?thesis by simp
    next
      case False
      with r Suc.prems(3) show ?thesis by simp
    qed
  qed
  note ih = Suc.IH [OF l b' w' Suc.prems(4)]
  have "pack_while n step Wt i row Wq = pack_while n step Wt (i + step) (row + 1) ?Wq"
    using row inner by (subst pack_while.simps) simp
  also note ih
  also have "map (\<lambda>r. if r < row + 1 then ?Wq ! r
                    else map (\<lambda>c. ?Wq ! r ! c OR
                                big_or (\<lambda>j. push_bit (j * n) (Wt ! (i + step + (r - (row + 1)) * step + j) ! c)) step)
                           [0..<w]) [0..<length ?Wq]
     = map (\<lambda>r. if r < row then Wq ! r
                    else map (\<lambda>c. Wq ! r ! c OR
                                big_or (\<lambda>j. push_bit (j * n) (Wt ! (i + (r - row) * step + j) ! c)) step)
                           [0..<w]) [0..<length Wq]"
  proof (rule map_cong)
    show "[0..<length ?Wq] = [0..<length Wq]" by simp
    fix r assume "r \<in> set [0..<length Wq]"
    then have r: "r < length Wq" by simp
    consider "r < row" | "r = row" | "row < r" by linarith
    then show "(if r < row + 1 then ?Wq ! r
                    else map (\<lambda>c. ?Wq ! r ! c OR
                                big_or (\<lambda>j. push_bit (j * n) (Wt ! (i + step + (r - (row + 1)) * step + j) ! c)) step)
                           [0..<w])
        = (if r < row then Wq ! r
                    else map (\<lambda>c. Wq ! r ! c OR
                                big_or (\<lambda>j. push_bit (j * n) (Wt ! (i + (r - row) * step + j) ! c)) step)
                           [0..<w])"
    proof cases
      case 1 then show ?thesis by simp
    next
      case 2 then show ?thesis using row by simp
    next
      case 3
      then obtain q where q: "r = row + 1 + q" by (metis Suc_eq_plus1 less_iff_Suc_add add_Suc_right add_Suc)
      have "i + step + q * step = i + (1 + q) * step" by (simp add: algebra_simps)
      then show ?thesis using 3 by (simp add: q add.assoc)
    qed
  qed
  finally show ?case .
qed

lemma triton_init_fields:
  fixes self :: "'f triton_linear"
  assumes init: "GemLiteLinearTriton_init nbits gs fin fout idt odt acc = (evs, Inr self)"
  shows "nbits \<in> {1, 2, 4, 8}" "fin mod 128 = 0" "fout mod 128 = 0" "0 \<le> fin" "0 \<le> fout"
    "W_nbits self = nbits" "orig_shape self = (fout, fin)" "in_features self = fin"
    "out_features self = fout" "group_size self \<noteq> 0"
    "group_size self = (case gs of None \<Rightarrow> fin | Some g \<Rightarrow> g)"
proof -
  show n: "nbits \<in> {1, 2, 4, 8}"
    by (rule ccontr) (use init in \<open>simp add: GemLiteLinearTriton_init_def SUPPORTED_BITS_TRITON_def\<close>)
  then have n': "nbits \<in> set SUPPORTED_BITS_TRITON" by (simp add: SUPPORTED_BITS_TRITON_def)
  have sh: "\<not> (fin mod 128 \<noteq> 0 \<or> fout mod 128 \<noteq> 0)"
    by (rule notI) (use init n' in \<open>simp add: GemLiteLinearTriton_init_def\<close>)
  then show "fin mod 128 = 0" "fout mod 128 = 0" by simp_all
  obtain ks cdt where d: "triton_dispatch idt odt = Some (ks, cdt)"
    by (cases "triton_dispatch idt odt") (use init n' sh in \<open>auto simp add: GemLiteLinearTriton_init_def\<close>)
  define group where "group = (case gs of None \<Rightarrow> fin | Some g \<Rightarrow> g)"
  have g: "group \<noteq> 0"
    by (rule notI) (use init n' sh d in \<open>simp add: GemLiteLinearTriton_init_def Let_def group_def\<close>)
  obtain wq :: "32 word buffer" where z1: "torch_zeros_meta (fin div 32 * nbits) fout = Inr wq"
    by (cases "torch_zeros_meta (fin div 32 * nbits) fout :: error + 32 word buffer")
      (use init n' sh d g in \<open>auto simp add: GemLiteLinearTriton_init_def Let_def group_def\<close>)
  obtain sc :: "'f buffer" where z2: "torch_zeros_meta (cdiv fin group) fout = Inr sc"
    by (cases "torch_zeros_meta (cdiv fin group) fout :: error + 'f buffer")
      (use init n' sh d g z1 in \<open>auto simp add: GemLiteLinearTriton_init_def Let_def group_def\<close>)
  have self: "W_nbits self = nbits \<and> orig_shape self = (fout, fin) \<and> in_features self = fin
      \<and> out_features self = fout \<and> group_size self = group"
    using init n' sh d g z1 z2
    by (auto simp add: GemLiteLinearTriton_init_def Let_def group_def)
  then show "W_nbits self = nbits" "orig_shape self = (fout, fin)" "in_features self = fin"
    "out_features self = fout" "group_size self \<noteq> 0"
    "group_size self = (case gs of None \<Rightarrow> fin | Some g \<Rightarrow> g)"
    using g by (simp_all add: group_def)
  from z1 have nn: "\<not> fin div 32 * nbits < 0" and "\<not> fout < 0"
    by (simp_all add: torch_zeros_meta_def split: if_splits)
  then show "0 \<le> fout" by simp
  from n have "0 < nbits" by auto
  with nn have "0 \<le> fin div 32" by (simp add: mult_less_0_iff not_less)
  then show "0 \<le> fin" by (simp add: pos_imp_zdiv_nonneg_iff)
qed

lemma packed_rows_B:
  fixes nbits :: int and m :: nat
  assumes "nbits \<in> {1, 2, 4, 8}" "m mod 32 = 0" "k = nat (32 div nbits)"
  shows "nat (int m div 32 * nbits) = m div k" "0 \<le> int m div 32 * nbits"
    "m div k * k = m" "0 < k" "k * nat nbits \<le> 32" "nat (32 div nbits) = k" "32 div nbits \<noteq> 0"
proof -
  from assms(2) have "32 dvd m" by (simp add: dvd_eq_mod_eq_0)
  then obtain q where q: "m = 32 * q" by (auto simp add: dvd_def)
  from assms(1,3) consider "nbits = 1" "k = 32" | "nbits = 2" "k = 16" | "nbits = 4" "k = 8"
    | "nbits = 8" "k = 4" by auto
  then show "nat (int m div 32 * nbits) = m div k" by cases (simp_all add: q nat_mult_distrib)
  from assms(1) show "0 \<le> int m div 32 * nbits" by auto
  from assms(1,3) consider "nbits = 1" "k = 32" | "nbits = 2" "k = 16" | "nbits = 4" "k = 8"
    | "nbits = 8" "k = 4" by auto
  then show "m div k * k = m" by cases (simp_all add: q)
  from assms(1,3) show "0 < k" "k * nat nbits \<le> 32" "nat (32 div nbits) = k" "32 div nbits \<noteq> 0"
    by auto
qed

lemma triton_pack_words_ok:
  assumes n: "nbits \<in> {1, 2, 4, 8}" and fin: "0 \<le> fin" "fin mod 32 = 0" and fout: "0 \<le> fout"
    and shape: "length (cells Wq) = nat fout * nat fin"
    and k: "k = nat (32 div nbits)"
  shows "triton_pack_words nbits (fout, fin) Wq =
     Inr \<lparr> nrows = nat fin div k, ncols = nat fout,
           cells = tabulate2 (nat fin div k) (nat fout)
             (\<lambda>row c. big_or (\<lambda>j. push_bit (j * nat nbits)
                                  (ucast (cells Wq ! (c * nat fin + (row * k + j))))) k) \<rparr>"
proof -
  let ?W1 = "\<lparr>nrows = nat fout, ncols = nat fin, cells = cells Wq\<rparr>"
  let ?Wt = "to_int32 (t_contiguous ?W1)"
  let ?w = "nat fout"
  have "nat (fin mod 32) = nat fin mod nat 32" by (rule nat_mod_distrib) (use fin in simp_all)
  then have m32: "nat fin mod 32 = 0" using fin(2) by simp
  note pr = packed_rows_B [OF n m32 k]
  have r1: "torch_reshape2 fout fin Wq = Inr ?W1"
    using fin(1) fout shape by (simp add: torch_reshape2_def Let_def)
  have dims: "nrows ?Wt = nat fin" "ncols ?Wt = nat fout"
    by (simp_all add: to_int32_def t_contiguous_def)
  have wf: "wf_matrix ?Wt" by (simp add: wf_matrix_def to_int32_def t_contiguous_def)
  have lr: "length (rows ?Wt) = nat fin" by (simp add: rows_def dims)
  have rl: "\<forall>r<length (rows ?Wt). length (rows ?Wt ! r) = ?w"
    using rows_nth(1) [OF wf] by (simp add: lr dims)
  have cellt: "\<And>j c. j < nat fin \<Longrightarrow> c < nat fout \<Longrightarrow>
      rows ?Wt ! j ! c = ucast (cells Wq ! (c * nat fin + j))"
  proof -
    fix j c assume j: "j < nat fin" and c: "c < nat fout"
    have "rows ?Wt ! j ! c = cells ?Wt ! (j * nat fout + c)"
      using rows_nth(2) [OF wf, of j c] j c by (simp add: dims)
    also have "\<dots> = ucast (tabulate2 (nat fin) (nat fout)
          (\<lambda>c r. cells Wq ! (r * nat fin + c)) ! (j * nat fout + c))"
      using index_in_matrix [OF j c] by (simp add: to_int32_def t_contiguous_def)
    also have "\<dots> = ucast (cells Wq ! (c * nat fin + j))"
      by (simp add: nth_tabulate2 [OF j c])
    finally show "rows ?Wt ! j ! c = ucast (cells Wq ! (c * nat fin + j))" .
  qed
  let ?R = "nat fin div k"
  let ?Z = "replicate ?R (replicate ?w (0 :: 32 word))"
  have zl: "\<forall>r<length ?Z. length (?Z ! r) = ?w" by simp
  have bd: "0 + ?R * k \<le> length (rows ?Wt)" using pr(3) by (simp add: lr)
  have len: "length ?Z - 0 = ?R" by simp
  note run = pack_while_run [OF len bd zl rl, of "nat nbits"]
  have rows_eq: "map (\<lambda>r. if r < 0 then ?Z ! r
                    else map (\<lambda>c. ?Z ! r ! c OR
                                big_or (\<lambda>j. push_bit (j * nat nbits)
                                          (rows ?Wt ! (0 + (r - 0) * k + j) ! c)) k)
                           [0..<?w]) [0..<length ?Z]
      = map (\<lambda>row. map (\<lambda>c. big_or (\<lambda>j. push_bit (j * nat nbits)
                                  (ucast (cells Wq ! (c * nat fin + (row * k + j))))) k) [0..<?w])
          [0..<?R]"
  proof (rule map_cong)
    show "[0..<length ?Z] = [0..<?R]" by simp
    fix r assume "r \<in> set [0..<?R]"
    then have r: "r < ?R" by simp
    have "map (\<lambda>c. ?Z ! r ! c OR
                big_or (\<lambda>j. push_bit (j * nat nbits) (rows ?Wt ! (0 + (r - 0) * k + j) ! c)) k)
            [0..<?w]
        = map (\<lambda>c. big_or (\<lambda>j. push_bit (j * nat nbits)
                                  (ucast (cells Wq ! (c * nat fin + (r * k + j))))) k) [0..<?w]"
    proof (rule map_cong [OF refl])
      fix c assume "c \<in> set [0..<?w]"
      then have c: "c < ?w" by simp
      have z: "?Z ! r ! c = 0" using r c by simp
      have "big_or (\<lambda>j. push_bit (j * nat nbits) (rows ?Wt ! (0 + (r - 0) * k + j) ! c)) k
          = big_or (\<lambda>j. push_bit (j * nat nbits)
                                  (ucast (cells Wq ! (c * nat fin + (r * k + j))))) k"
      proof (rule big_or_cong)
        fix j assume j: "j < k"
        have "r * k + j < ?R * k" by (rule index_in_matrix [OF r j])
        with pr(3) have "r * k + j < nat fin" by simp
        from cellt [OF this c]
        show "push_bit (j * nat nbits) (rows ?Wt ! (0 + (r - 0) * k + j) ! c)
            = push_bit (j * nat nbits) (ucast (cells Wq ! (c * nat fin + (r * k + j))))"
          by simp
      qed
      then show "?Z ! r ! c OR
                big_or (\<lambda>j. push_bit (j * nat nbits) (rows ?Wt ! (0 + (r - 0) * k + j) ! c)) k
          = big_or (\<lambda>j. push_bit (j * nat nbits)
                                  (ucast (cells Wq ! (c * nat fin + (r * k + j))))) k"
        unfolding z by simp
    qed
    then show "(if r < 0 then ?Z ! r
                    else map (\<lambda>c. ?Z ! r ! c OR
                                big_or (\<lambda>j. push_bit (j * nat nbits)
                                          (rows ?Wt ! (0 + (r - 0) * k + j) ! c)) k)
                           [0..<?w])
        = map (\<lambda>c. big_or (\<lambda>j. push_bit (j * nat nbits)
                                  (ucast (cells Wq ! (c * nat fin + (r * k + j))))) k) [0..<?w]"
      by simp
  qed
  have n0: "nbits \<noteq> 0" using n by auto
  have R: "nat (int (nrows ?Wt) div 32 * nbits) = ?R" "\<not> int (nrows ?Wt) div 32 * nbits < 0"
    using pr(1,2) by (simp_all add: dims)
  have pw: "pack_while (nat nbits) k (rows ?Wt) 0 0 ?Z =
      Inr (map (\<lambda>row. map (\<lambda>c. big_or (\<lambda>j. push_bit (j * nat nbits)
                                  (ucast (cells Wq ! (c * nat fin + (row * k + j))))) k) [0..<?w])
          [0..<?R])"
    unfolding rows_eq [symmetric] by (rule run)
  show ?thesis
    unfolding triton_pack_words_def
    using r1 n0 R pr(6,7) pw
    by (simp add: Let_def dims tabulate2_def del: replicate.simps pack_while.simps)
qed

section \<open>Layout B: the packed words\<close>

text \<open>
  C7. On an operator built by \<open>__init__\<close> (so \<open>n\<close> is 1, 2, 4 or 8 and \<open>in_features\<close>
  is a multiple of 128, with \<open>k = 32 / n\<close>) and a well-formed code tensor of shape
  \<open>(out_features, in_features)\<close>, the packing statements of \<open>GemLiteLinearTriton.pack\<close>
  give a tensor \<open>P\<close> of \<open>in_features / k\<close> rows and \<open>out_features\<close> columns: the codes
  are transposed, so the leading axis of \<open>P\<close> is the reduction dimension. Word
  \<open>(row, c)\<close> of \<open>P\<close> is the OR of the \<open>k\<close> codes of output \<open>c\<close> at the consecutive
  input indices \<open>row * k + j\<close>, code \<open>j\<close> shifted left by \<open>j * n\<close>: the lowest input
  index in the lowest \<open>n\<close> bits, the shift growing by \<open>n\<close> for each next code, and a code
  that fits in \<open>n\<close> bits is read back from its field. \<open>P\<close> is what \<open>pack\<close> stores in
  \<open>self.W_q\<close>, and \<open>pack\<close> returns whenever the scales and the zeros reshape to
  \<open>(out_features, in_features // group_size)\<close>.
\<close>

theorem layout_B_pack:
  fixes self :: "'f triton_linear"
  assumes init: "GemLiteLinearTriton_init nbits gs fin fout idt odt acc = (evs, Inr self)"
    and shape: "int (nrows Wq) = fout" "int (ncols Wq) = fin" "wf_matrix Wq"
    and k: "k = nat (32 div nbits)"
  shows "\<exists>P. triton_pack_words (W_nbits self) (orig_shape self) Wq = Inr P
      \<and> nrows P = nat fin div k \<and> ncols P = nat fout \<and> nrows P * k = nat fin
      \<and> length (cells P) = nrows P * ncols P
      \<and> (\<forall>row c. row < nat fin div k \<and> c < nat fout \<longrightarrow>
            cells P ! (row * nat fout + c) =
              big_or (\<lambda>j. push_bit (j * nat nbits)
                             (ucast (cells Wq ! (c * nat fin + (row * k + j))))) k)
      \<and> ((\<forall>x \<in> set (cells Wq). unat x < 2 ^ nat nbits) \<longrightarrow>
           (\<forall>row c j. row < nat fin div k \<and> c < nat fout \<and> j < k \<longrightarrow>
              ucast (drop_bit (j * nat nbits) (cells P ! (row * nat fout + c))
                       AND mask (nat nbits)) = cells Wq ! (c * nat fin + (row * k + j))))
      \<and> (\<forall>sc zs b self'. GemLiteLinearTriton_pack self Wq sc zs b = Inr self' \<longrightarrow>
            W_q self' = OnDevice P)
      \<and> (\<forall>sc zs b sc' zs'.
            torch_reshape2 (out_features self) (in_features self div group_size self) sc = Inr sc'
            \<and> torch_reshape2 (out_features self) (in_features self div group_size self) zs = Inr zs'
            \<longrightarrow> GemLiteLinearTriton_pack self Wq sc zs b =
                  Inr (self\<lparr> W_q := OnDevice P, scales := OnDevice (t_contiguous sc'),
                             zeros := OnDevice (t_contiguous zs'), bias := Some b \<rparr>))"
proof -
  note f = triton_init_fields [OF init]
  from f(2) have m32: "fin mod 32 = 0" by presburger
  have "nat (fin mod 32) = nat fin mod nat 32" by (rule nat_mod_distrib) (use f(4) in simp_all)
  then have nm32: "nat fin mod 32 = 0" using m32 by simp
  note pr = packed_rows_B [OF f(1) nm32 k]
  have nr: "nrows Wq = nat fout" and nc: "ncols Wq = nat fin" using shape(1,2) by auto
  have len: "length (cells Wq) = nat fout * nat fin"
    using shape(3) by (simp add: wf_matrix_def nr nc)
  define P where "P = \<lparr> nrows = nat fin div k, ncols = nat fout,
           cells = tabulate2 (nat fin div k) (nat fout)
             (\<lambda>row c. big_or (\<lambda>j. push_bit (j * nat nbits)
                                  (ucast (cells Wq ! (c * nat fin + (row * k + j))))) k) \<rparr>"
  have pw: "triton_pack_words (W_nbits self) (orig_shape self) Wq = Inr P"
    unfolding f(6,7) P_def by (rule triton_pack_words_ok [OF f(1) f(4) m32 f(5) len k])
  have dims: "nrows P = nat fin div k" "ncols P = nat fout" "nrows P * k = nat fin"
    "length (cells P) = nrows P * ncols P"
    using pr(3) by (simp_all add: P_def)
  have cellP: "\<And>row c. row < nat fin div k \<Longrightarrow> c < nat fout \<Longrightarrow>
      cells P ! (row * nat fout + c) =
        big_or (\<lambda>j. push_bit (j * nat nbits)
                       (ucast (cells Wq ! (c * nat fin + (row * k + j))))) k"
    by (simp add: P_def nth_tabulate2)
  have field: "(\<forall>x \<in> set (cells Wq). unat x < 2 ^ nat nbits) \<longrightarrow>
           (\<forall>row c j. row < nat fin div k \<and> c < nat fout \<and> j < k \<longrightarrow>
              ucast (drop_bit (j * nat nbits) (cells P ! (row * nat fout + c))
                       AND mask (nat nbits)) = cells Wq ! (c * nat fin + (row * k + j)))"
  proof (intro impI allI)
    fix row c j :: nat
    assume fit: "\<forall>x \<in> set (cells Wq). unat x < 2 ^ nat nbits"
      and h: "row < nat fin div k \<and> c < nat fout \<and> j < k"
    then have row: "row < nat fin div k" and c: "c < nat fout" and j: "j < k" by simp_all
    have fitc: "\<forall>i<k. unat (cells Wq ! (c * nat fin + (row * k + i))) < 2 ^ nat nbits"
    proof (intro allI impI)
      fix i assume i: "i < k"
      have "row * k + i < nat fin div k * k" by (rule index_in_matrix [OF row i])
      then have "row * k + i < nat fin" using pr(3) by simp
      from index_in_matrix [OF c this] have "c * nat fin + (row * k + i) < length (cells Wq)"
        by (simp add: len)
      with fit show "unat (cells Wq ! (c * nat fin + (row * k + i))) < 2 ^ nat nbits"
        by (simp add: all_set_conv_all_nth)
    qed
    from extract_field(1) [OF fitc j fields_B [OF pr(5) j]]
    have "ucast (drop_bit (nat nbits * j)
              (big_or (\<lambda>i. push_bit (nat nbits * i)
                    (ucast (cells Wq ! (c * nat fin + (row * k + i))))) k) AND mask (nat nbits))
          = cells Wq ! (c * nat fin + (row * k + j))" .
    then show "ucast (drop_bit (j * nat nbits) (cells P ! (row * nat fout + c))
                       AND mask (nat nbits)) = cells Wq ! (c * nat fin + (row * k + j))"
      unfolding cellP [OF row c] by (simp add: mult.commute)
  qed
  have stored: "\<forall>sc zs b self'. GemLiteLinearTriton_pack self Wq sc zs b = Inr self' \<longrightarrow>
            W_q self' = OnDevice P"
    by (auto simp add: GemLiteLinearTriton_pack_def pw Let_def split: if_splits sum.splits)
  have returns: "\<forall>sc zs b sc' zs'.
            torch_reshape2 (out_features self) (in_features self div group_size self) sc = Inr sc'
            \<and> torch_reshape2 (out_features self) (in_features self div group_size self) zs = Inr zs'
            \<longrightarrow> GemLiteLinearTriton_pack self Wq sc zs b =
                  Inr (self\<lparr> W_q := OnDevice P, scales := OnDevice (t_contiguous sc'),
                             zeros := OnDevice (t_contiguous zs'), bias := Some b \<rparr>)"
    using f(10) by (simp add: GemLiteLinearTriton_pack_def pw Let_def)
  from pw dims cellP field stored returns show ?thesis
    by (intro exI [of _ P]) simp
qed

lemma example_codes_B_shape:
  "int (nrows example_codes_B) = 256" "int (ncols example_codes_B) = 256"
  "wf_matrix example_codes_B"
  by (simp_all add: example_codes_B_def wf_matrix_def)

lemma example_codes_B_nth:
  "i < 65536 \<Longrightarrow> cells example_codes_B ! i = word_of_nat (i mod 16)"
  by (simp add: example_codes_B_def)

lemma big_or_8:
  "big_or f 8 = f 0 OR f 1 OR f 2 OR f 3 OR f 4 OR f 5 OR f 6 OR f 7"
  by (simp add: eval_nat_numeral ac_simps)

lemma example_codes_B_words:
  "big_or (\<lambda>j. push_bit (j * nat 4)
       (ucast (cells example_codes_B ! (0 * nat 256 + (0 * 8 + j))))) 8 = 0x76543210"
  "big_or (\<lambda>j. push_bit (j * nat 4)
       (ucast (cells example_codes_B ! (3 * nat 256 + (1 * 8 + j))))) 8 = 0xFEDCBA98"
  by (simp_all add: big_or_8 example_codes_B_nth)

lemma example_scales_B_reshape:
  "torch_reshape2 (out_features example_self)
      (in_features example_self div group_size example_self) example_scales_B
     = Inr example_scales_B"
  by (simp add: torch_reshape2_def example_self_def example_scales_B_def)

text \<open>
  The witness of C7: with 4-bit codes equal to the input index modulo 16, word
  \<open>(0, 0)\<close> holds the codes 0 to 7 and word \<open>(1, 3)\<close> the codes 8 to 15, the lowest input
  index in the lowest hexadecimal digit.
\<close>

theorem layout_B_pack_witness:
  "\<exists>P. GemLiteLinearTriton_pack example_self example_codes_B example_scales_B example_scales_B None
         = Inr (example_self\<lparr> W_q := OnDevice P,
                  scales := OnDevice (t_contiguous example_scales_B),
                  zeros := OnDevice (t_contiguous example_scales_B), bias := Some None \<rparr>)
     \<and> nrows P = 32 \<and> ncols P = 256
     \<and> cells P ! 0 = 0x76543210 \<and> cells P ! 259 = 0xFEDCBA98"
proof -
  have k: "(8::nat) = nat (32 div 4)" by simp
  from layout_B_pack [OF example_self_init example_codes_B_shape k]
  obtain P where
    d: "nrows P = nat 256 div 8" "ncols P = nat 256"
    and c: "\<forall>row c. row < nat 256 div 8 \<and> c < nat 256 \<longrightarrow>
            cells P ! (row * nat 256 + c) =
              big_or (\<lambda>j. push_bit (j * nat 4)
                             (ucast (cells example_codes_B ! (c * nat 256 + (row * 8 + j))))) 8"
    and r: "\<forall>sc zs b sc' zs'.
            torch_reshape2 (out_features example_self)
               (in_features example_self div group_size example_self) sc = Inr sc'
            \<and> torch_reshape2 (out_features example_self)
               (in_features example_self div group_size example_self) zs = Inr zs'
            \<longrightarrow> GemLiteLinearTriton_pack example_self example_codes_B sc zs b =
                  Inr (example_self\<lparr> W_q := OnDevice P, scales := OnDevice (t_contiguous sc'),
                             zeros := OnDevice (t_contiguous zs'), bias := Some b \<rparr>)"
    by blast
  from r [rule_format, of example_scales_B example_scales_B example_scales_B example_scales_B None]
    example_scales_B_reshape
  have p: "GemLiteLinearTriton_pack example_self example_codes_B example_scales_B example_scales_B None
         = Inr (example_self\<lparr> W_q := OnDevice P,
                  scales := OnDevice (t_contiguous example_scales_B),
                  zeros := OnDevice (t_contiguous example_scales_B), bias := Some None \<rparr>)"
    by simp
  from c [rule_format, of 0 0] example_codes_B_words(1) have w0: "cells P ! 0 = 0x76543210"
    by simp
  from c [rule_format, of 1 3] example_codes_B_words(2) have w1: "cells P ! 259 = 0xFEDCBA98"
    by simp
  from p d w0 w1 show ?thesis by (intro exI [of _ P]) simp
qed

end
